theory Spec2Isabelle
  imports Main "HOL-Library.AList"
begin

section \<open>Text primitives of the Python runtime\<close>

text \<open>
  Python strings are modelled as \<^typ>\<open>string\<close>: a character is a code point below
  256, and text with a code point from 256 on is outside the model.
\<close>

text \<open>
  \<open>str.isspace\<close> on one character, the white space that \<open>str.strip()\<close> removes: the
  code points 9 to 13, 28 to 32, 133 (next line) and 160 (no-break space).
\<close>

definition py_isspace :: "char \<Rightarrow> bool" where
  "py_isspace c =
     (let n = (of_char c :: nat)
      in (9 \<le> n \<and> n \<le> 13) \<or> (28 \<le> n \<and> n \<le> 32) \<or> n = 133 \<or> n = 160)"

definition py_strip :: "string \<Rightarrow> string" where
  "py_strip s = rev (dropWhile py_isspace (rev (dropWhile py_isspace s)))"

text \<open>\<open>s.split(c)\<close> for a one-character separator: never an empty result list.\<close>

fun py_split :: "char \<Rightarrow> string \<Rightarrow> string list" where
  "py_split c [] = [[]]"
| "py_split c (x # xs) =
     (if x = c then [] # py_split c xs
      else (case py_split c xs of
              [] \<Rightarrow> [[x]]
            | w # ws \<Rightarrow> (x # w) # ws))"

text \<open>\<open>sep.join(xs)\<close>.\<close>

fun py_join :: "string \<Rightarrow> string list \<Rightarrow> string" where
  "py_join sep [] = []"
| "py_join sep [x] = x"
| "py_join sep (x # y # ys) = x @ sep @ py_join sep (y # ys)"

text \<open>
  \<open>str.upper()\<close>. The letters \<open>a\<close> to \<open>z\<close> and the lower-case letters from 224 to 254
  (247, the division sign, is none) have their capital 32 places lower; the sharp s
  (223) becomes \<open>SS\<close>; every other character stays. The capitals of the micro sign (181)
  and of the y with diaeresis (255) are code points above 255: for a string with one of
  them the result is outside the model, and \<open>py_upper\<close> is \<open>None\<close>.
\<close>

definition py_upper_char :: "char \<Rightarrow> string option" where
  "py_upper_char c =
     (let n = (of_char c :: nat) in
      if (97 \<le> n \<and> n \<le> 122) \<or> (224 \<le> n \<and> n \<le> 254 \<and> n \<noteq> 247)
      then Some [char_of (n - 32)]
      else if n = 223 then Some ''SS''
      else if n = 181 \<or> n = 255 then None
      else Some [c])"

definition py_upper :: "string \<Rightarrow> string option" where
  "py_upper s = map_option concat (those (map py_upper_char s))"

text \<open>\<open>s.replace(a, b)\<close> for one-character \<open>a\<close> and \<open>b\<close>.\<close>

definition py_replace_char :: "char \<Rightarrow> char \<Rightarrow> string \<Rightarrow> string" where
  "py_replace_char a b s = map (\<lambda>c. if c = a then b else c) s"

text \<open>
  \<open>s.replace(old, new)\<close>: the occurrences of \<open>old\<close> are found from left to right
  and do not overlap. For the empty \<open>old\<close> Python puts \<open>new\<close> before every character
  and at the end.
\<close>

function py_replace_ne :: "string \<Rightarrow> string \<Rightarrow> string \<Rightarrow> string" where
  "py_replace_ne old new [] = []"
| "py_replace_ne old new (x # xs) =
     (if old \<noteq> [] \<and> take (length old) (x # xs) = old
      then new @ py_replace_ne old new (drop (length old) (x # xs))
      else x # py_replace_ne old new xs)"
  by pat_completeness auto
termination
  by (relation "measure (\<lambda>(old, new, s). length s)") auto

definition py_replace :: "string \<Rightarrow> string \<Rightarrow> string \<Rightarrow> string" where
  "py_replace old new s =
     (if old = [] then new @ concat (map (\<lambda>c. c # new) s)
      else py_replace_ne old new s)"

text \<open>\<open>str(n)\<close> for a Python integer.\<close>

definition digit_char :: "nat \<Rightarrow> char" where
  "digit_char d = char_of (48 + d)"

fun show_nat :: "nat \<Rightarrow> string" where
  "show_nat n =
     (if n < 10 then [digit_char n] else show_nat (n div 10) @ [digit_char (n mod 10)])"

declare show_nat.simps [simp del]

definition show_int :: "int \<Rightarrow> string" where
  "show_int i = (if i < 0 then CHR ''-'' # show_nat (nat (- i)) else show_nat (nat i))"

section \<open>Table cells\<close>

text \<open>
  A cell of the data frame is the missing value \<open>NaN\<close> (what pandas reads from an empty
  spreadsheet cell), a string, or an integer. Floating-point cells other than \<open>NaN\<close>
  are outside the model.
\<close>

datatype cell = NaN | Str string | IntV int

fun pd_isna :: "cell \<Rightarrow> bool" where
  "pd_isna NaN = True"
| "pd_isna (Str s) = False"
| "pd_isna (IntV i) = False"

fun py_str :: "cell \<Rightarrow> string" where
  "py_str NaN = ''nan''"
| "py_str (Str s) = s"
| "py_str (IntV i) = show_int i"

text \<open>Truth value of a cell in a Python condition (\<open>float('nan')\<close> is true).\<close>

fun py_truthy :: "cell \<Rightarrow> bool" where
  "py_truthy NaN = True"
| "py_truthy (Str s) = (s \<noteq> [])"
| "py_truthy (IntV i) = (i \<noteq> 0)"

section \<open>The regular expression of \<open>validate_email\<close>\<close>

text \<open>
  The fragment of regular expressions that the pattern of \<open>validate_email\<close> uses: a
  literal character, a character class repeated at least \<open>n\<close> times (\<open>[...]+\<close> is
  \<open>n = 1\<close>, \<open>[...]{2,}\<close> is \<open>n = 2\<close>) and concatenation; \<open>Alt\<close>, \<open>Eps\<close> and
  \<open>Nothing\<close> are there for the derivatives. A class is a list of inclusive ranges.
\<close>

type_synonym cls = "(char \<times> char) list"

definition in_cls :: "cls \<Rightarrow> char \<Rightarrow> bool" where
  "in_cls C c =
     list_ex (\<lambda>(lo, hi). (of_char lo :: nat) \<le> of_char c \<and> (of_char c :: nat) \<le> of_char hi) C"

datatype rx = Nothing | Eps | Lit char | Many nat cls | Cat rx rx | Alt rx rx

fun nullable :: "rx \<Rightarrow> bool" where
  "nullable Nothing = False"
| "nullable Eps = True"
| "nullable (Lit c) = False"
| "nullable (Many n C) = (n = 0)"
| "nullable (Cat r s) = (nullable r \<and> nullable s)"
| "nullable (Alt r s) = (nullable r \<or> nullable s)"

fun deriv :: "char \<Rightarrow> rx \<Rightarrow> rx" where
  "deriv c Nothing = Nothing"
| "deriv c Eps = Nothing"
| "deriv c (Lit d) = (if c = d then Eps else Nothing)"
| "deriv c (Many n C) = (if in_cls C c then Many (n - 1) C else Nothing)"
| "deriv c (Cat r s) =
     (if nullable r then Alt (Cat (deriv c r) s) (deriv c s) else Cat (deriv c r) s)"
| "deriv c (Alt r s) = Alt (deriv c r) (deriv c s)"

fun accepts :: "rx \<Rightarrow> string \<Rightarrow> bool" where
  "accepts r [] = nullable r"
| "accepts r (c # cs) = accepts (deriv c r) cs"

text \<open>The words of a regular expression, for the proofs.\<close>

fun lang :: "rx \<Rightarrow> string set" where
  "lang Nothing = {}"
| "lang Eps = {[]}"
| "lang (Lit c) = {[c]}"
| "lang (Many n C) = {w. n \<le> length w \<and> list_all (in_cls C) w}"
| "lang (Cat r s) = {w. \<exists>u v. w = u @ v \<and> u \<in> lang r \<and> v \<in> lang s}"
| "lang (Alt r s) = lang r \<union> lang s"

text \<open>
  \<open>re.match(pattern, s)\<close> for a pattern \<open>^body$\<close>: the body matches from the start,
  and \<open>$\<close> accepts the end of the string or a single line feed right before it.
\<close>

definition re_match_anchored :: "rx \<Rightarrow> string \<Rightarrow> bool" where
  "re_match_anchored body s =
     (accepts body s \<or> (s \<noteq> [] \<and> last s = CHR 0x0A \<and> accepts body (butlast s)))"

definition alpha_cls :: cls where
  "alpha_cls = [(CHR ''a'', CHR ''z''), (CHR ''A'', CHR ''Z'')]"

definition alnum_cls :: cls where
  "alnum_cls = alpha_cls @ [(CHR ''0'', CHR ''9'')]"

definition local_cls :: cls where
  "local_cls = alnum_cls @
     [(CHR ''.'', CHR ''.''), (CHR ''_'', CHR ''_''), (CHR ''%'', CHR ''%''),
      (CHR ''+'', CHR ''+''), (CHR ''-'', CHR ''-'')]"

definition domain_cls :: cls where
  "domain_cls = alnum_cls @ [(CHR ''.'', CHR ''.''), (CHR ''-'', CHR ''-'')]"

text \<open>The body of \<open>^[a-zA-Z0-9._%+-]+@[a-zA-Z0-9.-]+\.[a-zA-Z]{2,}$\<close>.\<close>

definition email_pattern :: rx where
  "email_pattern =
     Cat (Many 1 local_cls)
       (Cat (Lit (CHR ''@''))
         (Cat (Many 1 domain_cls)
           (Cat (Lit (CHR ''.'')) (Many 2 alpha_cls))))"

definition validate_email :: "string \<Rightarrow> bool" where
  "validate_email email = re_match_anchored email_pattern (py_strip email)"

section \<open>\<open>parse_email_list\<close>\<close>

text \<open>
  The loop of \<open>parse_email_list\<close> over the trimmed entries: the pair of the valid and
  the invalid addresses, each in the order of the input. An empty entry goes to
  neither list.
\<close>

fun sort_emails :: "string list \<Rightarrow> string list \<times> string list" where
  "sort_emails [] = ([], [])"
| "sort_emails (email # emails) =
     (let (valid_emails, invalid_emails) = sort_emails emails in
      if email \<noteq> [] \<and> validate_email email then (email # valid_emails, invalid_emails)
      else if email \<noteq> [] then (valid_emails, email # invalid_emails)
      else (valid_emails, invalid_emails))"

text \<open>
  \<open>parse_email_list_out\<close> gives the returned list and the lines printed on the
  console; \<open>parse_email_list\<close> is the returned list.
\<close>

definition parse_email_list_out :: "cell \<Rightarrow> string list \<times> string list" where
  "parse_email_list_out email_string =
     (if pd_isna email_string \<or> py_strip (py_str email_string) = [] then ([], [])
      else
        let emails = map py_strip (py_split (CHR '','') (py_str email_string));
            (valid_emails, invalid_emails) = sort_emails emails
        in (valid_emails,
            if invalid_emails \<noteq> []
            then [''Warning: Invalid email addresses found and skipped: ''
                  @ py_join '', '' invalid_emails]
            else []))"

definition parse_email_list :: "cell \<Rightarrow> string list" where
  "parse_email_list email_string = fst (parse_email_list_out email_string)"

text \<open>The entries of a comma-separated cell, each one trimmed.\<close>

definition trimmed_entries :: "cell \<Rightarrow> string list" where
  "trimmed_entries c = map py_strip (py_split (CHR '','') (py_str c))"

text \<open>
  The shape of the strings the pattern accepts: a local part, \<open>@\<close>, a domain body, a
  dot and a top-level domain, each part non-empty (the last of two characters or more)
  and from its own class of characters.
\<close>

definition address_shape :: "string \<Rightarrow> bool" where
  "address_shape s =
     (\<exists>lp dom tld. s = lp @ ''@'' @ dom @ ''.'' @ tld
        \<and> lp \<noteq> [] \<and> list_all (in_cls local_cls) lp
        \<and> dom \<noteq> [] \<and> list_all (in_cls domain_cls) dom
        \<and> 2 \<le> length tld \<and> list_all (in_cls alpha_cls) tld)"

text \<open>
  The pattern as the specification words it, for the comparison with the code: a local
  part of the characters \<open>[A-Za-z0-9._%+-]\<close>, an \<open>@\<close>, a domain that contains at
  least one dot, and after its last dot a top-level domain of at least two letters.
\<close>

definition spec_address_pattern :: "string \<Rightarrow> bool" where
  "spec_address_pattern s =
     (let lp = takeWhile (\<lambda>c. c \<noteq> CHR ''@'') s;
          rest = dropWhile (\<lambda>c. c \<noteq> CHR ''@'') s
      in rest \<noteq> [] \<and> lp \<noteq> [] \<and> list_all (in_cls local_cls) lp \<and>
         (let dom = tl rest;
              tld = rev (takeWhile (\<lambda>c. c \<noteq> CHR ''.'') (rev dom))
          in CHR ''.'' \<in> set dom \<and> 2 \<le> length tld \<and> list_all (in_cls alpha_cls) tld))"

section \<open>Dates\<close>

text \<open>
  A reading of \<open>datetime.now()\<close>, and the two formats the program prints it in:
  \<open>%B %d, %Y\<close> and \<open>%Y-%m-%d %H:%M:%S\<close> (English month names, years of four
  digits).
\<close>

record datetime =
  year :: nat
  month :: nat
  day :: nat
  hour :: nat
  minute :: nat
  second :: nat

definition pad2 :: "nat \<Rightarrow> string" where
  "pad2 n = (if n < 10 then CHR ''0'' # show_nat n else show_nat n)"

definition month_name :: "nat \<Rightarrow> string" where
  "month_name m =
     (if m = 1 then ''January'' else if m = 2 then ''February''
      else if m = 3 then ''March'' else if m = 4 then ''April''
      else if m = 5 then ''May'' else if m = 6 then ''June''
      else if m = 7 then ''July'' else if m = 8 then ''August''
      else if m = 9 then ''September'' else if m = 10 then ''October''
      else if m = 11 then ''November'' else if m = 12 then ''December''
      else [])"

definition strftime_long :: "datetime \<Rightarrow> string" where
  "strftime_long d = month_name (month d) @ '' '' @ pad2 (day d) @ '', '' @ show_nat (year d)"

definition strftime_stamp :: "datetime \<Rightarrow> string" where
  "strftime_stamp d =
     show_nat (year d) @ ''-'' @ pad2 (month d) @ ''-'' @ pad2 (day d) @ '' ''
     @ pad2 (hour d) @ '':'' @ pad2 (minute d) @ '':'' @ pad2 (second d)"

section \<open>\<open>personalize_content\<close>\<close>

text \<open>
  A row handed to the functions is a pandas \<open>Series\<close>: its label (the index of the row
  in the data frame, \<open>Series.name\<close>) and its items, the column names with the values, in
  the order of the columns.
\<close>

type_synonym items = "(string \<times> cell) list"
type_synonym series = "nat \<times> items"

text \<open>\<open>row_data.get(key, default)\<close>.\<close>

definition series_get :: "series \<Rightarrow> string \<Rightarrow> cell \<Rightarrow> cell" where
  "series_get row_data key dflt = (case map_of (snd row_data) key of Some v \<Rightarrow> v | None \<Rightarrow> dflt)"

text \<open>
  The placeholder of a column, \<open>'{{' + key.upper().replace(' ', '_') + '}}'\<close>; \<open>None\<close>
  when the upper-case name is outside the model.
\<close>

definition placeholder_of :: "string \<Rightarrow> string option" where
  "placeholder_of key =
     map_option (\<lambda>u. ''{{'' @ py_replace_char (CHR '' '') (CHR ''_'') u @ ''}}'') (py_upper key)"

text \<open>
  The dictionary \<open>replacements\<close> is an association list in insertion order. The
  second loop of \<open>personalize_content\<close> adds a column only under a placeholder that
  is not there yet. A placeholder outside the model has a character that no template
  and no cell of the model contains, so its entry replaces nothing in any of them: the
  model leaves it out.
\<close>

fun add_columns :: "items \<Rightarrow> (string \<times> string) list \<Rightarrow> (string \<times> string) list" where
  "add_columns [] replacements = replacements"
| "add_columns ((key, v) # rest) replacements =
     (case placeholder_of key of
        None \<Rightarrow> add_columns rest replacements
      | Some placeholder \<Rightarrow>
          add_columns rest
            (if map_of replacements placeholder = None
             then replacements @ [(placeholder, if pd_isna v then [] else py_str v)]
             else replacements))"

definition standard_replacements :: "datetime \<Rightarrow> series \<Rightarrow> (string \<times> string) list" where
  "standard_replacements now row_data =
     [(''{{NAME}}'', py_str (series_get row_data ''First Name'' (Str []))),
      (''{{DATE}}'', strftime_long now),
      (''{{COMPANY}}'', py_str (series_get row_data ''Company'' (Str []))),
      (''{{EMAIL}}'', py_str (series_get row_data ''To'' (Str [])))]"

definition replacements_of :: "datetime \<Rightarrow> series \<Rightarrow> (string \<times> string) list" where
  "replacements_of now row_data = add_columns (snd row_data) (standard_replacements now row_data)"

fun replace_all :: "(string \<times> string) list \<Rightarrow> string \<Rightarrow> string" where
  "replace_all [] content = content"
| "replace_all ((placeholder, v) # rest) content = replace_all rest (py_replace placeholder v content)"

text \<open>\<open>now\<close> is what \<open>datetime.now()\<close> returns during the call.\<close>

definition personalize_content :: "datetime \<Rightarrow> string \<Rightarrow> series \<Rightarrow> string" where
  "personalize_content now template row_data = replace_all (replacements_of now row_data) template"

section \<open>Configuration, environment and the outside world\<close>

text \<open>The dictionary \<open>EmailConfig.COLUMNS\<close>, one field for each of its eight keys.\<close>

record columns_cfg =
  c_name :: string
  c_to :: string
  c_cc :: string
  c_bcc :: string
  c_status :: string
  c_timestamp :: string
  c_attachments :: string
  c_custom_subject :: string

record email_config =
  EXCEL_FILE :: string
  EMAIL_SUBJECT :: string
  TEMPLATE_FILE :: string
  ATTACHMENTS_FOLDER :: string
  DELAY_BETWEEN_EMAILS :: nat
  MAX_EMAILS_PER_RUN :: int
  TEST_MODE :: bool
  TEST_EMAIL :: string
  COLUMNS :: columns_cfg

text \<open>The values of \<open>COLUMNS\<close> set by \<open>EmailConfig.__init__\<close>.\<close>

definition default_columns :: columns_cfg where
  "default_columns =
     \<lparr>c_name = ''First Name'', c_to = ''To'', c_cc = ''CC'', c_bcc = ''BCC'',
      c_status = ''Email Status'', c_timestamp = ''Sent Timestamp'',
      c_attachments = ''Attachments'', c_custom_subject = ''Custom Subject''\<rparr>"

text \<open>\<open>config.COLUMNS.values()\<close>, in the order of the dictionary.\<close>

definition columns_values :: "columns_cfg \<Rightarrow> string list" where
  "columns_values c =
     [c_name c, c_to c, c_cc c, c_bcc c, c_status c, c_timestamp c, c_attachments c,
      c_custom_subject c]"

record message =
  msg_From :: string
  msg_To :: string
  msg_Cc :: "string option"
  msg_Subject :: string
  msg_html :: string
  msg_parts :: "string list"

text \<open>
  What one SMTP session is given: the server and the login, the sender, all recipients
  and the message.
\<close>

record envelope =
  smtp_host :: string
  smtp_port_no :: int
  login_user :: string
  login_password :: string
  mail_from :: string
  rcpt_to :: "string list"
  content :: message

text \<open>
  The collaborators the program only reads. \<open>SMTP_PORT\<close> is the value of
  \<open>int(os.getenv('SMTP_PORT', 587))\<close>, \<open>None\<close> when \<open>int\<close> raises. \<open>clock k\<close> is the
  \<open>k\<close>-th reading of \<open>datetime.now()\<close>. \<open>smtp k e\<close> is the outcome of the \<open>k\<close>-th
  use of the delivery channel, the \<open>try\<close> block that opens the session, logs in, sends,
  quits and reports: \<open>None\<close> when no call raises, \<open>Some t\<close> when one raises an exception
  whose text is \<open>t\<close>. \<open>listdir p\<close> is \<open>None\<close> when \<open>os.listdir\<close> raises. \<open>answer\<close> is the
  line the operator types at the confirmation prompt.
\<close>

record env =
  EMAIL_SENDER :: "string option"
  EMAIL_PASSWORD :: "string option"
  SMTP_SERVER :: "string option"
  SMTP_PORT :: "int option"
  clock :: "nat \<Rightarrow> datetime"
  smtp :: "nat \<Rightarrow> envelope \<Rightarrow> string option"
  path_exists :: "string \<Rightarrow> bool"
  path_isfile :: "string \<Rightarrow> bool"
  listdir :: "string \<Rightarrow> string list option"
  file_readable :: "string \<Rightarrow> bool"
  answer :: string

text \<open>
  The two variants of the delivery channel, and the part of the world the program
  changes: the number of clock readings so far, the uses of the delivery channel so far
  (the label of the row, the variant, what was handed over), and the number of
  \<open>time.sleep\<close> calls.
\<close>

datatype channel = Preview | Live

record world =
  ticks :: nat
  deliveries :: "(nat \<times> channel \<times> envelope) list"
  sleeps :: nat

datatype error = ValueError string | KeyError string | OSError string

definition datetime_now :: "env \<Rightarrow> world \<Rightarrow> datetime \<times> world" where
  "datetime_now e w = (clock e (ticks w), w\<lparr>ticks := Suc (ticks w)\<rparr>)"

section \<open>Attachments\<close>

definition os_path_join :: "string \<Rightarrow> string \<Rightarrow> string" where
  "os_path_join a b =
     (if b \<noteq> [] \<and> hd b = CHR ''/'' then b
      else if a = [] \<or> last a = CHR ''/'' then a @ b
      else a @ ''/'' @ b)"

definition os_path_basename :: "string \<Rightarrow> string" where
  "os_path_basename p = rev (takeWhile (\<lambda>c. c \<noteq> CHR ''/'') (rev p))"

text \<open>
  \<open>attach_files\<close>: the files that exist and can be read are attached, in the order
  given; the others are reported and left out. The result is the list of the attached
  paths (the parts added to the message); the source returns their base names.
\<close>

definition attach_files :: "env \<Rightarrow> string list \<Rightarrow> string list" where
  "attach_files e attachment_paths =
     filter (\<lambda>file_path. path_exists e file_path \<and> file_readable e file_path) attachment_paths"

text \<open>The files of the attachments folder, if the folder exists.\<close>

definition global_attachments :: "env \<Rightarrow> string \<Rightarrow> error + string list" where
  "global_attachments e folder =
     (if path_exists e folder then
        (case listdir e folder of
           None \<Rightarrow> Inl (OSError folder)
         | Some fs \<Rightarrow>
             Inr (filter (path_isfile e) (map (os_path_join folder) fs)))
      else Inr [])"

section \<open>\<open>send_personalized_email\<close>\<close>

text \<open>
  The result of \<open>send_personalized_email\<close> is a pair \<open>(success, status)\<close> or a triple
  \<open>(success, status, timestamp)\<close>: the third component is \<open>None\<close> for the pair. The
  function returns it, or raises, and leaves the world as the second component.
\<close>

type_synonym send_result = "bool \<times> string \<times> string option"

definition getenv_missing :: "string option \<Rightarrow> bool" where
  "getenv_missing v = (case v of None \<Rightarrow> True | Some s \<Rightarrow> s = [])"

definition pick_subject :: "datetime \<Rightarrow> email_config \<Rightarrow> series \<Rightarrow> string" where
  "pick_subject now config row_data =
     (let custom_subject = series_get row_data (c_custom_subject (COLUMNS config)) (Str []) in
      if py_truthy custom_subject \<and> \<not> pd_isna custom_subject
         \<and> py_strip (py_str custom_subject) \<noteq> []
      then personalize_content now (py_str custom_subject) row_data
      else personalize_content now (EMAIL_SUBJECT config) row_data)"

definition specific_attachment_list :: "email_config \<Rightarrow> series \<Rightarrow> string list" where
  "specific_attachment_list config row_data =
     (let specific_attachments = series_get row_data (c_attachments (COLUMNS config)) (Str []) in
      if py_truthy specific_attachments \<and> \<not> pd_isna specific_attachments
      then map py_strip (py_split (CHR '','') (py_str specific_attachments))
      else [])"

definition send_personalized_email ::
  "series \<Rightarrow> email_config \<Rightarrow> string \<Rightarrow> bool \<Rightarrow> env \<Rightarrow> world \<Rightarrow> (error + send_result) \<times> world" where
  "send_personalized_email row_data config template test_mode e w =
     (case SMTP_PORT e of
        None \<Rightarrow> (Inl (ValueError ''invalid literal for int()''), w)
      | Some smtp_port \<Rightarrow>
     if getenv_missing (EMAIL_SENDER e) \<or> getenv_missing (EMAIL_PASSWORD e)
     then (Inl (ValueError
       ''Email credentials not found. Please set EMAIL_SENDER and EMAIL_PASSWORD in .env file''), w)
     else
       let sender_email = the (EMAIL_SENDER e);
           sender_password = the (EMAIL_PASSWORD e);
           smtp_server = (case SMTP_SERVER e of None \<Rightarrow> ''smtp.gmail.com'' | Some h \<Rightarrow> h);
           to_emails = parse_email_list (series_get row_data (c_to (COLUMNS config)) (Str []));
           cc_emails = parse_email_list (series_get row_data (c_cc (COLUMNS config)) (Str []));
           bcc_emails = parse_email_list (series_get row_data (c_bcc (COLUMNS config)) (Str []))
       in
       if to_emails = [] then (Inr (False, ''No valid TO email addresses'', None), w)
       else
         let (now1, w1) = datetime_now e w;
             subject = pick_subject now1 config row_data;
             (now2, w2) = datetime_now e w1;
             personalized_content = personalize_content now2 template row_data
         in
         (case global_attachments e (ATTACHMENTS_FOLDER config) of
            Inl err \<Rightarrow> (Inl err, w2)
          | Inr global \<Rightarrow>
            let parts = attach_files e global
                        @ attach_files e (specific_attachment_list config row_data);
                msg = \<lparr>msg_From = sender_email,
                       msg_To = py_join '', '' to_emails,
                       msg_Cc = (if cc_emails \<noteq> [] then Some (py_join '', '' cc_emails) else None),
                       msg_Subject = subject,
                       msg_html = personalized_content,
                       msg_parts = parts\<rparr>;
                all_recipients = to_emails @ cc_emails @ bcc_emails;
                envl = \<lparr>smtp_host = smtp_server, smtp_port_no = smtp_port,
                        login_user = sender_email, login_password = sender_password,
                        mail_from = sender_email, rcpt_to = all_recipients, content = msg\<rparr>
            in
            if test_mode
            then (Inr (True, ''Test mode - not sent'', None),
                  w2\<lparr>deliveries := deliveries w2 @ [(fst row_data, Preview, envl)]\<rparr>)
            else
              let w3 = w2\<lparr>deliveries := deliveries w2 @ [(fst row_data, Live, envl)]\<rparr> in
              (case smtp e (length (deliveries w2)) envl of
                 None \<Rightarrow>
                   let (now3, w4) = datetime_now e w3 in
                   (Inr (True, ''Sent successfully'', Some (strftime_stamp now3)), w4)
               | Some reason \<Rightarrow>
                   (Inr (False, ''Failed: '' @ reason, Some []), w3))))"

section \<open>The data frame\<close>

text \<open>
  The table: the column names, and for every row its items in the order of the columns.
  The label of a row is its position, as \<open>read_excel\<close> and \<open>read_csv\<close> number the rows.
\<close>

record dataframe =
  columns :: "string list"
  rows :: "items list"

text \<open>\<open>df.iterrows()\<close>.\<close>

definition iterrows :: "dataframe \<Rightarrow> series list" where
  "iterrows d = zip [0..<length (rows d)] (rows d)"

text \<open>\<open>df[name] = v\<close>, for a column that is not in the frame.\<close>

definition df_add_column :: "dataframe \<Rightarrow> string \<Rightarrow> cell \<Rightarrow> dataframe" where
  "df_add_column d name v =
     d\<lparr>columns := columns d @ [name], rows := map (\<lambda>r. r @ [(name, v)]) (rows d)\<rparr>"

text \<open>
  \<open>df.at[index, col] = v\<close>, for the label of a row of the frame. A column that is not
  in the frame is added first, with NaN in every row.
\<close>

definition df_at_set :: "dataframe \<Rightarrow> nat \<Rightarrow> string \<Rightarrow> cell \<Rightarrow> dataframe" where
  "df_at_set d index col v =
     (let d' = (if col \<in> set (columns d) then d else df_add_column d col NaN) in
      if index < length (rows d')
      then d'\<lparr>rows := (rows d')[index := AList.update col v (rows d' ! index)]\<rparr>
      else d')"

section \<open>The campaign driver\<close>

record run_state =
  df :: dataframe
  successful_emails :: nat
  failed_emails :: nat
  emails_sent_this_run :: nat
  wld :: world

text \<open>
  The status test of the loop: \<open>not pd.isna(current_status) and
  str(current_status).strip()\<close>.
\<close>

definition already_sent :: "cell \<Rightarrow> bool" where
  "already_sent current_status =
     (\<not> pd_isna current_status \<and> py_strip (py_str current_status) \<noteq> [])"

text \<open>
  The body of the loop from the call of \<open>send_personalized_email\<close> to the delay, for a
  row that passed the two tests. The first component is the exception that left the
  body, if one did.
\<close>

definition process_row ::
  "email_config \<Rightarrow> env \<Rightarrow> string \<Rightarrow> series \<Rightarrow> run_state \<Rightarrow> error option \<times> run_state" where
  "process_row config e email_template row st =
     (case send_personalized_email row config email_template (TEST_MODE config) e (wld st) of
        (Inl err, w') \<Rightarrow> (Some err, st\<lparr>wld := w'\<rparr>)
      | (Inr (success, status_message, third), w') \<Rightarrow>
          let timestamp = (case third of None \<Rightarrow> [] | Some t \<Rightarrow> t);
              index = fst row;
              d1 = df_at_set (df st) index (c_status (COLUMNS config)) (Str status_message);
              d2 = (if timestamp \<noteq> []
                    then df_at_set d1 index (c_timestamp (COLUMNS config)) (Str timestamp)
                    else d1);
              sent = Suc (emails_sent_this_run st);
              w'' = (if int sent < MAX_EMAILS_PER_RUN config
                        \<and> int index < int (length (rows d2)) - 1
                     then w'\<lparr>sleeps := Suc (sleeps w')\<rparr> else w')
          in (None,
              \<lparr>df = d2,
               successful_emails = (if success then Suc (successful_emails st)
                                    else successful_emails st),
               failed_emails = (if success then failed_emails st else Suc (failed_emails st)),
               emails_sent_this_run = sent,
               wld = w''\<rparr>))"

text \<open>
  The \<open>for\<close> loop of \<open>main\<close> over the rows still to visit: \<open>continue\<close> for a row that
  has a status, \<open>break\<close> at the cap, the body otherwise.
\<close>

fun campaign_loop ::
  "email_config \<Rightarrow> env \<Rightarrow> string \<Rightarrow> series list \<Rightarrow> run_state \<Rightarrow> error option \<times> run_state" where
  "campaign_loop config e email_template [] st = (None, st)"
| "campaign_loop config e email_template (row # rest) st =
     (case map_of (snd row) (c_status (COLUMNS config)) of
        None \<Rightarrow> (Some (KeyError (c_status (COLUMNS config))), st)
      | Some current_status \<Rightarrow>
          if already_sent current_status then campaign_loop config e email_template rest st
          else if MAX_EMAILS_PER_RUN config \<le> int (emails_sent_this_run st) then (None, st)
          else (case process_row config e email_template row st of
                  (Some err, st') \<Rightarrow> (Some err, st')
                | (None, st') \<Rightarrow> campaign_loop config e email_template rest st'))"

text \<open>The two loops of \<open>main\<close> over the columns, before the rows are visited.\<close>

definition missing_columns :: "email_config \<Rightarrow> dataframe \<Rightarrow> string list" where
  "missing_columns config d =
     filter (\<lambda>col_name. col_name \<notin> set (columns d) \<and> col_name \<noteq> ''BCC''
                         \<and> col_name \<noteq> ''Attachments'' \<and> col_name \<noteq> ''Custom Subject'')
       (columns_values (COLUMNS config))"

definition add_optional_columns :: "email_config \<Rightarrow> dataframe \<Rightarrow> dataframe" where
  "add_optional_columns config d =
     fold (\<lambda>name d'. if name \<notin> set (columns d') then df_add_column d' name (Str []) else d')
       [c_bcc (COLUMNS config), c_attachments (COLUMNS config),
        ''Custom Subject'', ''Sent Timestamp'']
       d"

definition count_pending :: "email_config \<Rightarrow> dataframe \<Rightarrow> nat" where
  "count_pending config d =
     length (filter (\<lambda>r. case map_of r (c_status (COLUMNS config)) of
                            None \<Rightarrow> False
                          | Some c \<Rightarrow> pd_isna c \<or> c = Str [])
               (rows d))"

text \<open>\<open>input().lower().startswith('y')\<close>.\<close>

definition confirmed :: "string \<Rightarrow> bool" where
  "confirmed a = (case a of [] \<Rightarrow> False | c # _ \<Rightarrow> c = CHR ''y'' \<or> c = CHR ''Y'')"

text \<open>
  How a run ends: with a message about missing columns, with no pending row, cancelled
  at the prompt, in the \<open>except\<close> clause, or with the summary (processed, successful,
  failed, remaining).
\<close>

datatype run_end =
  MissingColumns "string list"
  | NoPending
  | Cancelled
  | Crashed error
  | Finished nat nat nat int

text \<open>
  \<open>main\<close> from the validation of the columns on, for the configuration, the template
  and the table it has loaded. The result is how the run ended, the table written
  back to the file (\<open>None\<close> when the run never reaches \<open>df.to_excel\<close>) and the world.
  The count of the pending rows reads the status column of the frame, and raises
  \<open>KeyError\<close> when there is none.
\<close>

definition main ::
  "email_config \<Rightarrow> env \<Rightarrow> string \<Rightarrow> dataframe \<Rightarrow> world \<Rightarrow> run_end \<times> dataframe option \<times> world" where
  "main config e email_template d0 w0 =
     (let missing = missing_columns config d0 in
      if missing \<noteq> [] then (MissingColumns missing, None, w0)
      else
        let d1 = add_optional_columns config d0 in
        if c_status (COLUMNS config) \<notin> set (columns d1)
        then (Crashed (KeyError (c_status (COLUMNS config))), None, w0)
        else
        let pending_emails = count_pending config d1 in
        if pending_emails = 0 then (NoPending, None, w0)
        else if \<not> TEST_MODE config \<and> \<not> confirmed (answer e) then (Cancelled, None, w0)
        else
          (case campaign_loop config e email_template (iterrows d1)
                  \<lparr>df = d1, successful_emails = 0, failed_emails = 0,
                   emails_sent_this_run = 0, wld = w0\<rparr> of
             (Some err, st) \<Rightarrow> (Crashed err, None, wld st)
           | (None, st) \<Rightarrow>
               (Finished (emails_sent_this_run st) (successful_emails st) (failed_emails st)
                  (int pending_emails - int (emails_sent_this_run st)),
                Some (df st), wld st)))"

text \<open>The table in the file after the run.\<close>

definition persisted :: "dataframe \<Rightarrow> run_end \<times> dataframe option \<times> world \<Rightarrow> dataframe" where
  "persisted d0 res = (case fst (snd res) of None \<Rightarrow> d0 | Some d \<Rightarrow> d)"

section \<open>Notions for the statements\<close>

text \<open>The uses of the delivery channel from the world \<open>w\<close> to the later world \<open>w'\<close>.\<close>

definition new_deliveries :: "world \<Rightarrow> world \<Rightarrow> (nat \<times> channel \<times> envelope) list" where
  "new_deliveries w w' = drop (length (deliveries w)) (deliveries w')"

text \<open>
  An environment in which \<open>send_personalized_email\<close> does not raise: the port is a
  number, the sender and the password are set, and the attachments folder, if there is
  one, can be listed.
\<close>

definition env_ready :: "email_config \<Rightarrow> env \<Rightarrow> bool" where
  "env_ready config e =
     (SMTP_PORT e \<noteq> None \<and> \<not> getenv_missing (EMAIL_SENDER e)
      \<and> \<not> getenv_missing (EMAIL_PASSWORD e)
      \<and> (path_exists e (ATTACHMENTS_FOLDER config)
           \<longrightarrow> listdir e (ATTACHMENTS_FOLDER config) \<noteq> None))"

text \<open>
  A frame as pandas has it: every row has the columns of the frame, in their order.
\<close>

definition well_formed :: "dataframe \<Rightarrow> bool" where
  "well_formed d = list_all (\<lambda>r. map fst r = columns d) (rows d)"

text \<open>The cell \<open>df.at[index, col]\<close>, if there is one.\<close>

definition df_at :: "dataframe \<Rightarrow> nat \<Rightarrow> string \<Rightarrow> cell option" where
  "df_at d index col = (if index < length (rows d) then map_of (rows d ! index) col else None)"

text \<open>A row that the loop passes over because its status is set.\<close>

definition skipped :: "email_config \<Rightarrow> series \<Rightarrow> bool" where
  "skipped config row =
     (case map_of (snd row) (c_status (COLUMNS config)) of
        None \<Rightarrow> False
      | Some c \<Rightarrow> already_sent c)"

text \<open>
  The run gets to the loop: no required column is missing, the frame has the status
  column, \<open>main\<close> counts a pending row and, in live mode, the operator confirms.
\<close>

definition run_starts :: "email_config \<Rightarrow> env \<Rightarrow> dataframe \<Rightarrow> bool" where
  "run_starts config e d0 =
     (missing_columns config d0 = []
      \<and> c_status (COLUMNS config) \<in> set (columns (add_optional_columns config d0))
      \<and> count_pending config (add_optional_columns config d0) \<noteq> 0
      \<and> (TEST_MODE config \<or> confirmed (answer e)))"

text \<open>
  The row with the label \<open>i\<close> as the loop of \<open>main\<close> gets it from \<open>iterrows\<close>: the row
  of the table, with the optional columns that \<open>main\<close> has added.
\<close>

definition loop_row :: "email_config \<Rightarrow> dataframe \<Rightarrow> nat \<Rightarrow> series" where
  "loop_row config d0 i = (i, rows (add_optional_columns config d0) ! i)"

text \<open>
  Between the worlds \<open>w\<close> and \<open>w'\<close> there was a live session for the row \<open>i\<close> in
  which no call raised.
\<close>

definition live_session_ok :: "env \<Rightarrow> world \<Rightarrow> world \<Rightarrow> nat \<Rightarrow> bool" where
  "live_session_ok e w w' i =
     list_ex (\<lambda>k. case deliveries w' ! k of
                    (j, ch, en) \<Rightarrow> j = i \<and> ch = Live \<and> smtp e k en = None)
       [length (deliveries w)..<length (deliveries w')]"

section \<open>Inputs for the examples\<close>

text \<open>The configuration that \<open>EmailConfig.__init__\<close> sets.\<close>

definition default_config :: email_config where
  "default_config =
     \<lparr>EXCEL_FILE = ''aarushi_main.xlsx'',
      EMAIL_SUBJECT = ''Invitation: Q2 Vertex AI Search for Media Product Roadmap Quarterly'',
      TEMPLATE_FILE = ''email_template.html'',
      ATTACHMENTS_FOLDER = ''attachments'',
      DELAY_BETWEEN_EMAILS = 2,
      MAX_EMAILS_PER_RUN = 100,
      TEST_MODE = False,
      TEST_EMAIL = ''test@example.com'',
      COLUMNS = default_columns\<rparr>"

text \<open>The frame that \<open>create_sample_excel\<close> builds.\<close>

definition sample_data :: dataframe where
  "sample_data =
     \<lparr>columns = [''First Name'', ''To'', ''CC'', ''BCC'', ''Company'', ''Custom Subject'',
                 ''Attachments'', ''Email Status'', ''Sent Timestamp''],
      rows =
        [[(''First Name'', Str ''John''), (''To'', Str ''john@example.com''),
          (''CC'', Str ''manager@example.com''), (''BCC'', Str []),
          (''Company'', Str ''ABC Corp''), (''Custom Subject'', Str []),
          (''Attachments'', Str []), (''Email Status'', Str []),
          (''Sent Timestamp'', Str [])],
         [(''First Name'', Str ''Jane''), (''To'', Str ''jane@example.com,jane2@example.com''),
          (''CC'', Str ''boss@example.com,hr@example.com''), (''BCC'', Str ''secret@example.com''),
          (''Company'', Str ''XYZ Inc''), (''Custom Subject'', Str ''Special invitation for {{NAME}}''),
          (''Attachments'', Str ''report.pdf,presentation.pptx''), (''Email Status'', Str []),
          (''Sent Timestamp'', Str [])],
         [(''First Name'', Str ''Bob''), (''To'', Str ''bob@example.com''),
          (''CC'', Str []), (''BCC'', Str []),
          (''Company'', Str ''Demo Ltd''), (''Custom Subject'', Str []),
          (''Attachments'', Str ''invoice.pdf''), (''Email Status'', Str []),
          (''Sent Timestamp'', Str [])]]\<rparr>"

text \<open>
  An environment for the examples: the credentials are set, every SMTP session
  succeeds, there is no attachments folder and no file, the operator answers \<open>yes\<close>,
  and the clock shows the morning of 2 June 2025.
\<close>

definition quiet_env :: env where
  "quiet_env =
     \<lparr>EMAIL_SENDER = Some ''me@example.com'',
      EMAIL_PASSWORD = Some ''app-password'',
      SMTP_SERVER = None,
      SMTP_PORT = Some 587,
      clock = (\<lambda>k. \<lparr>year = 2025, month = 6, day = 2, hour = 9, minute = 30,
                       second = k mod 60\<rparr>),
      smtp = (\<lambda>k en. None),
      path_exists = (\<lambda>p. False),
      path_isfile = (\<lambda>p. False),
      listdir = (\<lambda>p. None),
      file_readable = (\<lambda>p. False),
      answer = ''yes''\<rparr>"

definition world0 :: world where
  "world0 = \<lparr>ticks = 0, deliveries = [], sleeps = 0\<rparr>"

text \<open>The same environment with an SMTP server that refuses every connection.\<close>

definition refusing_env :: env where
  "refusing_env = quiet_env\<lparr>smtp := (\<lambda>k en. Some ''Connection refused'')\<rparr>"

text \<open>The sample table after a run that has sent the first row.\<close>

definition sample_sent :: dataframe where
  "sample_sent =
     df_at_set (df_at_set sample_data 0 ''Email Status'' (Str ''Sent successfully''))
       0 ''Sent Timestamp'' (Str ''2025-06-01 10:00:00'')"

text \<open>The sample table with a first row whose \<open>To\<close> cell holds no address.\<close>

definition sample_bad_to :: dataframe where
  "sample_bad_to = df_at_set sample_data 0 ''To'' (Str ''john-at-example.com'')"

text \<open>The first two rows of a table.\<close>

definition first_two :: "dataframe \<Rightarrow> dataframe" where
  "first_two d = d\<lparr>rows := take 2 (rows d)\<rparr>"

text \<open>
  The default configuration with a short subject; the same in test mode, and with a cap
  of one.
\<close>

definition short_config :: email_config where
  "short_config = default_config\<lparr>EMAIL_SUBJECT := ''Hello {{NAME}}''\<rparr>"

definition test_config :: email_config where
  "test_config = short_config\<lparr>TEST_MODE := True\<rparr>"

definition cap_one_config :: email_config where
  "cap_one_config = short_config\<lparr>MAX_EMAILS_PER_RUN := 1\<rparr>"

text \<open>The state of the loop before the first row.\<close>

definition start_state :: "dataframe \<Rightarrow> world \<Rightarrow> run_state" where
  "start_state d w =
     \<lparr>df = d, successful_emails = 0, failed_emails = 0, emails_sent_this_run = 0, wld = w\<rparr>"

definition short_template :: string where
  "short_template = ''Dear {{NAME}},''"

section \<open>The pattern of \<open>validate_email\<close> and \<open>parse_email_list\<close>\<close>

lemma nullable_lang: "nullable r \<longleftrightarrow> [] \<in> lang r"
  by (induction r) auto

lemma deriv_lang: "w \<in> lang (deriv c r) \<longleftrightarrow> c # w \<in> lang r"
proof (induction r arbitrary: w)
  case (Many n C)
  then show ?case by (cases n) auto
next
  case (Cat r s)
  show ?case
  proof
    assume "w \<in> lang (deriv c (Cat r s))"
    then show "c # w \<in> lang (Cat r s)"
      using Cat nullable_lang[of r]
      apply (auto split: if_splits)
       apply (metis append_Cons)
      apply (metis append_Cons)
      done
  next
    assume "c # w \<in> lang (Cat r s)"
    then obtain u v where uv: "c # w = u @ v" "u \<in> lang r" "v \<in> lang s" by auto
    show "w \<in> lang (deriv c (Cat r s))"
    proof (cases u)
      case Nil
      then show ?thesis using uv Cat nullable_lang[of r] by auto
    next
      case (Cons a u')
      then show ?thesis using uv Cat by auto
    qed
  qed
qed auto

lemma accepts_lang: "accepts r w \<longleftrightarrow> w \<in> lang r"
  by (induction w arbitrary: r) (auto simp: nullable_lang deriv_lang)

lemma lang_Many1: "w \<in> lang (Many 1 C) \<longleftrightarrow> w \<noteq> [] \<and> list_all (in_cls C) w"
  by (cases w) auto

lemma lang_CatI: "u \<in> lang r \<Longrightarrow> v \<in> lang s \<Longrightarrow> u @ v \<in> lang (Cat r s)"
  by auto

lemma lang_CatE:
  assumes "w \<in> lang (Cat r s)"
  obtains u v where "w = u @ v" "u \<in> lang r" "v \<in> lang s"
  using assms by auto

lemma email_pattern_shape:
  assumes "s \<in> lang email_pattern"
  shows "address_shape s"
proof -
  from assms obtain lp r1 where 1: "s = lp @ r1" "lp \<in> lang (Many 1 local_cls)"
      "r1 \<in> lang (Cat (Lit (CHR ''@'')) (Cat (Many 1 domain_cls) (Cat (Lit (CHR ''.'')) (Many 2 alpha_cls))))"
    unfolding email_pattern_def by (rule lang_CatE)
  from 1(3) obtain a r2 where 2: "r1 = a @ r2" "a \<in> lang (Lit (CHR ''@''))"
      "r2 \<in> lang (Cat (Many 1 domain_cls) (Cat (Lit (CHR ''.'')) (Many 2 alpha_cls)))"
    by (rule lang_CatE)
  from 2(3) obtain dom r3 where 3: "r2 = dom @ r3" "dom \<in> lang (Many 1 domain_cls)"
      "r3 \<in> lang (Cat (Lit (CHR ''.'')) (Many 2 alpha_cls))"
    by (rule lang_CatE)
  from 3(3) obtain b tld where 4: "r3 = b @ tld" "b \<in> lang (Lit (CHR ''.''))"
      "tld \<in> lang (Many 2 alpha_cls)"
    by (rule lang_CatE)
  have a: "a = ''@''" and b: "b = ''.''" using 2(2) 4(2) by simp_all
  have s: "s = lp @ ''@'' @ dom @ ''.'' @ tld" unfolding 1(1) 2(1) 3(1) 4(1) a b ..
  have lp: "lp \<noteq> [] \<and> list_all (in_cls local_cls) lp" using 1(2) unfolding lang_Many1 .
  have dom: "dom \<noteq> [] \<and> list_all (in_cls domain_cls) dom" using 3(2) unfolding lang_Many1 .
  have tld: "2 \<le> length tld \<and> list_all (in_cls alpha_cls) tld" using 4(3) by simp
  show ?thesis unfolding address_shape_def
    apply (rule exI[of _ lp], rule exI[of _ dom], rule exI[of _ tld])
    using s lp dom tld apply simp
    done
qed

lemma shape_email_pattern:
  assumes "address_shape s"
  shows "s \<in> lang email_pattern"
proof -
  from assms obtain lp dom tld where s: "s = lp @ ''@'' @ dom @ ''.'' @ tld"
    and lp: "lp \<noteq> [] \<and> list_all (in_cls local_cls) lp"
    and dom: "dom \<noteq> [] \<and> list_all (in_cls domain_cls) dom"
    and tld: "2 \<le> length tld \<and> list_all (in_cls alpha_cls) tld"
    unfolding address_shape_def by (elim exE conjE) simp
  have a: "lp \<in> lang (Many 1 local_cls)" using lp unfolding lang_Many1 .
  have b: "''@'' \<in> lang (Lit (CHR ''@''))" by simp
  have c: "dom \<in> lang (Many 1 domain_cls)" using dom unfolding lang_Many1 .
  have d: "''.'' \<in> lang (Lit (CHR ''.''))" by simp
  have e: "tld \<in> lang (Many 2 alpha_cls)" using tld by simp
  have "lp @ ''@'' @ dom @ ''.'' @ tld \<in> lang email_pattern"
    unfolding email_pattern_def
    by (rule lang_CatI[OF a lang_CatI[OF b lang_CatI[OF c lang_CatI[OF d e]]]])
  then show ?thesis unfolding s .
qed

lemma accepts_email_pattern: "accepts email_pattern s \<longleftrightarrow> address_shape s"
  unfolding accepts_lang using email_pattern_shape shape_email_pattern by blast

lemma strip_last_not_space: "py_strip s \<noteq> [] \<Longrightarrow> \<not> py_isspace (last (py_strip s))"
proof -
  assume ne: "py_strip s \<noteq> []"
  let ?t = "dropWhile py_isspace (rev (dropWhile py_isspace s))"
  have t: "?t \<noteq> []" using ne by (simp add: py_strip_def)
  then have "\<not> py_isspace (hd ?t)" by (rule hd_dropWhile)
  moreover have "last (py_strip s) = hd ?t" using t by (simp add: py_strip_def last_rev)
  ultimately show ?thesis by simp
qed

lemma strip_hd_not_space: "py_strip s \<noteq> [] \<Longrightarrow> \<not> py_isspace (hd (py_strip s))"
proof -
  assume ne: "py_strip s \<noteq> []"
  let ?u = "dropWhile py_isspace s"
  let ?t = "dropWhile py_isspace (rev ?u)"
  have t: "?t \<noteq> []" using ne by (simp add: py_strip_def)
  have u: "?u \<noteq> []"
  proof
    assume "?u = []"
    then have "?t = dropWhile py_isspace (rev [])" by (rule arg_cong)
    then show False using t by simp
  qed
  have "hd (py_strip s) = last ?t" using t by (simp add: py_strip_def hd_rev)
  also have "\<dots> = last (rev ?u)"
    using t by (metis append_Nil2 last_appendR takeWhile_dropWhile_id)
  also have "\<dots> = hd ?u" using u by (simp add: last_rev)
  finally show ?thesis using hd_dropWhile[OF u] by simp
qed

lemma strip_idem: "py_strip (py_strip s) = py_strip s"
proof (cases "py_strip s = []")
  case True
  have "py_strip [] = []" by (simp add: py_strip_def)
  then show ?thesis unfolding True .
next
  case False
  let ?t = "py_strip s"
  have h: "\<not> py_isspace (hd ?t)" and l: "\<not> py_isspace (last ?t)"
    using False strip_hd_not_space strip_last_not_space by auto
  have 1: "dropWhile py_isspace ?t = ?t" using False h by (cases ?t) auto
  have 2: "dropWhile py_isspace (rev ?t) = rev ?t"
    using False l by (cases "rev ?t") (auto simp: last_rev hd_rev dest: arg_cong[where f=hd])
  show ?thesis unfolding py_strip_def[of ?t] 1 2 by simp
qed

lemma newline_is_space: "py_isspace (CHR 0x0A)"
  by (simp add: py_isspace_def)

lemma validate_stripped: "validate_email (py_strip s) \<longleftrightarrow> address_shape (py_strip s)"
  using strip_last_not_space[of s] newline_is_space
  by (auto simp: validate_email_def re_match_anchored_def strip_idem accepts_email_pattern)

lemma address_shape_nonempty: "address_shape s \<Longrightarrow> s \<noteq> []"
  by (auto simp: address_shape_def)

lemma sort_emails_filter:
  "sort_emails es =
     (filter (\<lambda>e. e \<noteq> [] \<and> validate_email e) es, filter (\<lambda>e. e \<noteq> [] \<and> \<not> validate_email e) es)"
  by (induction es) auto

lemma split_no_sep: "c \<notin> set s \<Longrightarrow> py_split c s = [s]"
  by (induction s) auto

lemma strip_empty_all_space: "py_strip s = [] \<Longrightarrow> list_all py_isspace s"
proof -
  assume "py_strip s = []"
  then have "dropWhile py_isspace (rev (dropWhile py_isspace s)) = []" by (simp add: py_strip_def)
  then have "\<forall>x\<in>set (rev (dropWhile py_isspace s)). py_isspace x" by (simp add: dropWhile_eq_Nil_conv)
  then have a: "\<forall>x\<in>set (dropWhile py_isspace s). py_isspace x" by simp
  have "dropWhile py_isspace s = []"
  proof (rule ccontr)
    assume n: "dropWhile py_isspace s \<noteq> []"
    then have "\<not> py_isspace (hd (dropWhile py_isspace s))" by (rule hd_dropWhile)
    moreover have "hd (dropWhile py_isspace s) \<in> set (dropWhile py_isspace s)" using n by simp
    ultimately show False using a by blast
  qed
  then show ?thesis by (simp add: dropWhile_eq_Nil_conv list_all_iff)
qed

lemma comma_not_space: "\<not> py_isspace (CHR '','')"
  by (simp add: py_isspace_def)

lemma blank_entries: "py_strip s = [] \<Longrightarrow> map py_strip (py_split (CHR '','') s) = [[]]"
proof -
  assume b: "py_strip s = []"
  then have "list_all py_isspace s" by (rule strip_empty_all_space)
  then have "CHR '','' \<notin> set s" using comma_not_space by (auto simp: list_all_iff)
  then show ?thesis using b by (simp add: split_no_sep)
qed

lemma split_entries_stripped:
  "filter (\<lambda>e. e \<noteq> [] \<and> validate_email e) (map py_strip xs) = filter address_shape (map py_strip xs)"
  by (induction xs) (auto simp: validate_stripped dest: address_shape_nonempty)

lemma nan_not_address: "\<not> address_shape ''nan''"
proof -
  have "\<not> accepts email_pattern ''nan''" by code_simp
  then show ?thesis unfolding accepts_email_pattern .
qed

lemma parse_email_list_filter:
  "parse_email_list c = filter address_shape (trimmed_entries c)"
proof (cases "pd_isna c \<or> py_strip (py_str c) = []")
  case True
  then show ?thesis
  proof
    assume "pd_isna c"
    then have c: "c = NaN" by (cases c) auto
    have "trimmed_entries NaN = [''nan'']" by code_simp
    then show ?thesis using c nan_not_address
      by (simp add: parse_email_list_def parse_email_list_out_def)
  next
    assume b: "py_strip (py_str c) = []"
    have "\<not> address_shape []" using address_shape_nonempty by blast
    then show ?thesis using b blank_entries[OF b]
      by (simp add: parse_email_list_def parse_email_list_out_def trimmed_entries_def)
  qed
next
  case False
  then show ?thesis
    by (simp add: parse_email_list_def parse_email_list_out_def trimmed_entries_def
        sort_emails_filter split_entries_stripped Let_def)
qed

lemma invalid_entries_stripped:
  "filter (\<lambda>e. e \<noteq> [] \<and> \<not> validate_email e) (map py_strip xs)
   = filter (\<lambda>e. e \<noteq> [] \<and> \<not> address_shape e) (map py_strip xs)"
  by (induction xs) (auto simp: validate_stripped)

lemma parse_email_list_warning:
  "snd (parse_email_list_out c) =
     (if pd_isna c \<or> py_strip (py_str c) = [] then []
      else if filter (\<lambda>e. e \<noteq> [] \<and> \<not> address_shape e) (trimmed_entries c) = [] then []
      else [''Warning: Invalid email addresses found and skipped: ''
            @ py_join '', '' (filter (\<lambda>e. e \<noteq> [] \<and> \<not> address_shape e) (trimmed_entries c))])"
  by (simp add: parse_email_list_out_def trimmed_entries_def sort_emails_filter
      invalid_entries_stripped Let_def)

text \<open>
  C8, as the claim states it, fails twice. The entry \<open>x@a_b.com\<close> has a local part of
  the listed characters, an \<open>@\<close>, a domain with a dot and the top-level domain \<open>com\<close>,
  and \<open>parse_email_list\<close> drops it: the domain of the pattern is made of letters,
  digits, dots and hyphens only. The cell \<open>a@x.com,\<close> has an empty entry, which does
  not match, and no warning is printed for it.
\<close>

theorem parse_email_list_spec_pattern_counterexample:
  "parse_email_list (Str ''x@a_b.com'')
     \<noteq> filter spec_address_pattern (trimmed_entries (Str ''x@a_b.com''))
   \<and> [] \<in> set (trimmed_entries (Str ''a@x.com,''))
   \<and> \<not> spec_address_pattern []
   \<and> snd (parse_email_list_out (Str ''a@x.com,'')) = []"
  by code_simp

text \<open>
  C8, amended: for every cell, \<open>parse_email_list\<close> returns exactly the trimmed entries
  of the shape \<open>local@body.tld\<close>, in their order, where \<open>local\<close> is one or more
  characters of \<open>[A-Za-z0-9._%+-]\<close>, \<open>body\<close> is one or more characters of
  \<open>[A-Za-z0-9.-]\<close> and \<open>tld\<close> is two or more letters. It is a total function (an entry
  that does not match never makes it fail). The entries that are not empty and do not
  match are named in one warning line; an empty entry is dropped without a warning. A
  missing or blank cell gives the empty list and no warning.
\<close>

theorem parse_email_list_exact:
  "parse_email_list c =
     (if pd_isna c \<or> py_strip (py_str c) = [] then []
      else filter address_shape (trimmed_entries c))
   \<and> snd (parse_email_list_out c) =
       (if pd_isna c \<or> py_strip (py_str c) = [] then []
        else if filter (\<lambda>e. e \<noteq> [] \<and> \<not> address_shape e) (trimmed_entries c) = [] then []
        else [''Warning: Invalid email addresses found and skipped: ''
              @ py_join '', ''
                  (filter (\<lambda>e. e \<noteq> [] \<and> \<not> address_shape e) (trimmed_entries c))])"
proof -
  have "parse_email_list c = []" if "pd_isna c \<or> py_strip (py_str c) = []"
    using that by (auto simp: parse_email_list_def parse_email_list_out_def)
  then show ?thesis
    using parse_email_list_filter[of c] parse_email_list_warning[of c] by simp
qed

lemma example_entries:
  "trimmed_entries (Str ''jane@x.com, bad-email,,Bob.Smith+1@mail.y-z.org '')
   = [''jane@x.com'', ''bad-email'', [], ''Bob.Smith+1@mail.y-z.org'']"
  by code_simp

lemma example_shapes:
  "address_shape ''jane@x.com''" "\<not> address_shape ''bad-email''" "\<not> address_shape []"
  "address_shape ''Bob.Smith+1@mail.y-z.org''"
  unfolding accepts_email_pattern[symmetric] by code_simp+

theorem parse_email_list_exact_witness:
  "parse_email_list (Str ''jane@x.com, bad-email,,Bob.Smith+1@mail.y-z.org '')
     = [''jane@x.com'', ''Bob.Smith+1@mail.y-z.org'']
   \<and> snd (parse_email_list_out (Str ''jane@x.com, bad-email,,Bob.Smith+1@mail.y-z.org ''))
     = [''Warning: Invalid email addresses found and skipped: bad-email'']"
proof -
  have b: "py_strip (py_str (Str ''jane@x.com, bad-email,,Bob.Smith+1@mail.y-z.org '')) \<noteq> []"
    by code_simp
  show ?thesis
    using parse_email_list_exact[of "Str ''jane@x.com, bad-email,,Bob.Smith+1@mail.y-z.org ''"] b
    by (simp add: example_entries example_shapes)
qed

section \<open>The template engine\<close>

text \<open>
  C6: the code does not do what the claim says. A missing first name is rendered as the
  text \<open>nan\<close>: the built-in placeholders are filled with \<open>str(row_data.get(...))\<close>
  without the \<open>pd.isna\<close> test that the loop over the other columns makes.
\<close>

theorem personalize_content_nan_name:
  "personalize_content
     \<lparr>year = 2025, month = 6, day = 2, hour = 9, minute = 30, second = 0\<rparr>
     ''Dear {{NAME}},'' (0, [(''First Name'', NaN), (''To'', Str ''jane@x.com'')])
   = ''Dear nan,''"
  by code_simp

text \<open>
  The replacements are made one after the other, in the order of the dictionary. A
  text without \<open>{\<close> has no placeholder, and no replacement changes it.
\<close>

lemma take_hd: "p \<noteq> [] \<Longrightarrow> take (length p) (x # xs) = p \<Longrightarrow> hd p = x"
  by (cases p) auto

lemma replace_ne_no_brace:
  "hd p = CHR ''{'' \<Longrightarrow> CHR ''{'' \<notin> set s \<Longrightarrow> py_replace_ne p v s = s"
  by (induction s) (auto dest: take_hd)

lemma replace_ne_prefix:
  "hd p = CHR ''{'' \<Longrightarrow> CHR ''{'' \<notin> set pre
   \<Longrightarrow> py_replace_ne p v (pre @ rest) = pre @ py_replace_ne p v rest"
  by (induction pre) (auto dest: take_hd)

lemma other_on_email:
  "py_replace_ne ''{{NAME}}'' v (''{{EMAIL}}'' @ post) = ''{{EMAIL}}'' @ py_replace_ne ''{{NAME}}'' v post"
  "py_replace_ne ''{{DATE}}'' v (''{{EMAIL}}'' @ post) = ''{{EMAIL}}'' @ py_replace_ne ''{{DATE}}'' v post"
  "py_replace_ne ''{{COMPANY}}'' v (''{{EMAIL}}'' @ post) = ''{{EMAIL}}'' @ py_replace_ne ''{{COMPANY}}'' v post"
  "py_replace_ne ''{{EMAIL}}'' v (''{{EMAIL}}'' @ post) = v @ py_replace_ne ''{{EMAIL}}'' v post"
  by simp_all

lemma replace_passes:
  assumes "p \<noteq> []" and "hd p = CHR ''{''"
    and "CHR ''{'' \<notin> set pre" and "CHR ''{'' \<notin> set post"
    and "py_replace_ne p v (''{{EMAIL}}'' @ post) = w @ py_replace_ne p v post"
  shows "py_replace p v (pre @ ''{{EMAIL}}'' @ post) = pre @ w @ post"
proof -
  have "py_replace p v (pre @ ''{{EMAIL}}'' @ post) = py_replace_ne p v (pre @ ''{{EMAIL}}'' @ post)"
    using assms(1) by (simp add: py_replace_def)
  also have "\<dots> = pre @ py_replace_ne p v (''{{EMAIL}}'' @ post)"
    using assms(2,3) by (rule replace_ne_prefix)
  also have "\<dots> = pre @ w @ py_replace_ne p v post"
    by (simp only: assms(5))
  also have "py_replace_ne p v post = post"
    using assms(2,4) by (rule replace_ne_no_brace)
  finally show ?thesis .
qed

lemma standard_on_email:
  assumes "CHR ''{'' \<notin> set pre" and "CHR ''{'' \<notin> set post"
  shows "replace_all (standard_replacements now row_data) (pre @ ''{{EMAIL}}'' @ post)
         = pre @ py_str (series_get row_data ''To'' (Str [])) @ post"
proof -
  have n: "py_replace ''{{NAME}}'' v (pre @ ''{{EMAIL}}'' @ post) = pre @ ''{{EMAIL}}'' @ post" for v
    by (rule replace_passes[OF _ _ assms other_on_email(1)]) simp_all
  have d: "py_replace ''{{DATE}}'' v (pre @ ''{{EMAIL}}'' @ post) = pre @ ''{{EMAIL}}'' @ post" for v
    by (rule replace_passes[OF _ _ assms other_on_email(2)]) simp_all
  have c: "py_replace ''{{COMPANY}}'' v (pre @ ''{{EMAIL}}'' @ post) = pre @ ''{{EMAIL}}'' @ post" for v
    by (rule replace_passes[OF _ _ assms other_on_email(3)]) simp_all
  have e: "py_replace ''{{EMAIL}}'' v (pre @ ''{{EMAIL}}'' @ post) = pre @ v @ post" for v
    by (rule replace_passes[OF _ _ assms other_on_email(4)]) simp_all
  show ?thesis
    by (simp only: standard_replacements_def replace_all.simps n d c e)
qed

lemma replace_all_append: "replace_all (a @ b) s = replace_all b (replace_all a s)"
  by (induction a arbitrary: s) auto

lemma replace_all_no_brace:
  "\<forall>(p, v) \<in> set extra. p \<noteq> [] \<and> hd p = CHR ''{'' \<Longrightarrow> CHR ''{'' \<notin> set s
   \<Longrightarrow> replace_all extra s = s"
  by (induction extra arbitrary: s) (auto simp: py_replace_def replace_ne_no_brace)

lemma placeholder_of_brace: "placeholder_of key = Some p \<Longrightarrow> p \<noteq> [] \<and> hd p = CHR ''{''"
  by (auto simp: placeholder_of_def)

lemma add_columns_extends:
  "\<exists>extra. add_columns its reps = reps @ extra
           \<and> (\<forall>(p, v) \<in> set extra. p \<noteq> [] \<and> hd p = CHR ''{'')"
proof (induction its arbitrary: reps)
  case Nil
  show ?case by simp
next
  case (Cons a its)
  obtain key v where a: "a = (key, v)" by (cases a)
  show ?case
  proof (cases "placeholder_of key")
    case None
    then show ?thesis using Cons[of reps] a by simp
  next
    case (Some p)
    show ?thesis
    proof (cases "map_of reps p = None")
      case False
      then have "add_columns (a # its) reps = add_columns its reps"
        using a Some by auto
      then show ?thesis using Cons[of reps] by simp
    next
      case True
      obtain extra where e: "add_columns its (reps @ [(p, if pd_isna v then [] else py_str v)])
           = (reps @ [(p, if pd_isna v then [] else py_str v)]) @ extra"
           "\<forall>(p, v) \<in> set extra. p \<noteq> [] \<and> hd p = CHR ''{''"
        using Cons[of "reps @ [(p, if pd_isna v then [] else py_str v)]"] by blast
      have "add_columns (a # its) reps = reps @ ((p, if pd_isna v then [] else py_str v) # extra)"
        using a Some True e(1) by simp
      moreover have "\<forall>(p, v) \<in> set ((p, if pd_isna v then [] else py_str v) # extra). p \<noteq> [] \<and> hd p = CHR ''{''"
        using e(2) placeholder_of_brace[OF Some] by simp
      ultimately show ?thesis by blast
    qed
  qed
qed

text \<open>
  C7, as the claim states it, fails: the second row of the sample table has two
  addresses in its \<open>To\<close> cell, so its \<open>to\<close> list is not empty, and \<open>{{EMAIL}}\<close> is
  rendered as the whole cell, not as the first address of the list.
\<close>

theorem email_placeholder_counterexample:
  "personalize_content
     \<lparr>year = 2025, month = 6, day = 2, hour = 9, minute = 30, second = 0\<rparr>
     ''Sent to {{EMAIL}}.'' (1, rows sample_data ! 1)
   \<noteq> ''Sent to ''
       @ hd (parse_email_list
               (series_get (1, rows sample_data ! 1) (c_to (COLUMNS default_config)) (Str [])))
       @ ''.''
   \<and> parse_email_list (series_get (1, rows sample_data ! 1) (c_to (COLUMNS default_config)) (Str []))
       \<noteq> []"
  by code_simp

text \<open>
  C7, amended: with the default name \<open>To\<close> of the \<open>to\<close> column, for every row with a
  non-empty \<open>to\<close> list, the template engine renders \<open>{{EMAIL}}\<close> as the text of the
  row's \<open>to\<close> cell as it is written: with all its entries, neither trimmed nor
  validated. This is the first address of the list only when the cell consists of that
  one address. The statement is for a cell without \<open>{\<close> and a placeholder between texts
  without \<open>{\<close>: a placeholder of a later entry of the dictionary that stands in the cell
  is replaced in its turn.
\<close>

theorem email_placeholder_renders_To_cell:
  assumes names: "c_to (COLUMNS config) = ''To''"
    and to: "parse_email_list (series_get row_data (c_to (COLUMNS config)) (Str [])) \<noteq> []"
    and pre: "CHR ''{'' \<notin> set pre" and post: "CHR ''{'' \<notin> set post"
    and cell: "CHR ''{'' \<notin> set (py_str (series_get row_data (c_to (COLUMNS config)) (Str [])))"
  shows "personalize_content now (pre @ ''{{EMAIL}}'' @ post) row_data
         = pre @ py_str (series_get row_data (c_to (COLUMNS config)) (Str [])) @ post"
proof -
  obtain extra where e: "replacements_of now row_data = standard_replacements now row_data @ extra"
      "\<forall>(p, v) \<in> set extra. p \<noteq> [] \<and> hd p = CHR ''{''"
    unfolding replacements_of_def using add_columns_extends by blast
  have "CHR ''{'' \<notin> set (pre @ py_str (series_get row_data ''To'' (Str [])) @ post)"
    using pre post cell names by simp
  from replace_all_no_brace[OF e(2) this] show ?thesis
    by (simp only: personalize_content_def e(1) replace_all_append
        standard_on_email[OF pre post] names)
qed

theorem email_placeholder_renders_To_cell_witness:
  "personalize_content
     \<lparr>year = 2025, month = 6, day = 2, hour = 9, minute = 30, second = 0\<rparr>
     ''Sent to {{EMAIL}}.'' (1, rows sample_data ! 1)
   = ''Sent to jane@example.com,jane2@example.com.''
   \<and> parse_email_list (series_get (1, rows sample_data ! 1) (c_to (COLUMNS default_config)) (Str []))
     = [''jane@example.com'', ''jane2@example.com'']"
proof -
  have n: "c_to (COLUMNS default_config) = ''To''"
    by (simp add: default_config_def default_columns_def)
  have c: "py_str (series_get (1, rows sample_data ! 1) (c_to (COLUMNS default_config)) (Str []))
           = ''jane@example.com,jane2@example.com''"
    by code_simp
  have p: "parse_email_list (series_get (1, rows sample_data ! 1) (c_to (COLUMNS default_config))
             (Str []))
           = [''jane@example.com'', ''jane2@example.com'']"
    by code_simp
  have h1: "parse_email_list (series_get (1, rows sample_data ! 1) (c_to (COLUMNS default_config))
              (Str [])) \<noteq> []"
    by (simp only: p) simp
  have h2: "CHR ''{'' \<notin> set ''Sent to ''" and h3: "CHR ''{'' \<notin> set ''.''"
    by simp_all
  have h4: "CHR ''{'' \<notin> set (py_str (series_get (1, rows sample_data ! 1)
                                        (c_to (COLUMNS default_config)) (Str [])))"
    by (simp only: c) simp
  have "personalize_content
     \<lparr>year = 2025, month = 6, day = 2, hour = 9, minute = 30, second = 0\<rparr>
     (''Sent to '' @ ''{{EMAIL}}'' @ ''.'') (1, rows sample_data ! 1)
     = ''Sent to '' @ ''jane@example.com,jane2@example.com'' @ ''.''"
    using email_placeholder_renders_To_cell[OF n h1 h2 h3 h4] by (simp only: c)
  then show ?thesis using p by simp
qed

text \<open>
  C9, as the claim states it, fails: the rendering reads the clock, so two renderings
  of the same template with the same row differ when the date has changed in between.
\<close>

theorem personalize_content_date_counterexample:
  "personalize_content
     \<lparr>year = 2025, month = 12, day = 31, hour = 23, minute = 59, second = 59\<rparr>
     ''{{DATE}}'' (0, [])
   \<noteq> personalize_content
     \<lparr>year = 2026, month = 1, day = 1, hour = 0, minute = 0, second = 0\<rparr>
     ''{{DATE}}'' (0, [])"
  by code_simp

text \<open>
  C9, amended: for every template and every row, two renderings of the same template
  with the same row give the same text when the clock shows the same date (year, month
  and day) at both.
\<close>

theorem personalize_content_same_date:
  assumes "year d1 = year d2" and "month d1 = month d2" and "day d1 = day d2"
  shows "personalize_content d1 template row_data = personalize_content d2 template row_data"
  using assms
  by (simp add: personalize_content_def replacements_of_def standard_replacements_def
      strftime_long_def)

theorem personalize_content_same_date_witness:
  "personalize_content
     \<lparr>year = 2025, month = 6, day = 2, hour = 9, minute = 30, second = 0\<rparr>
     ''Hi {{NAME}}, today is {{DATE}}'' (0, [(''First Name'', Str ''Bob'')])
   = personalize_content
     \<lparr>year = 2025, month = 6, day = 2, hour = 23, minute = 59, second = 59\<rparr>
     ''Hi {{NAME}}, today is {{DATE}}'' (0, [(''First Name'', Str ''Bob'')])"
  by (rule personalize_content_same_date) simp_all

section \<open>The send step, the table and the loop\<close>

lemma send_deliveries:
  assumes "send_personalized_email row config tpl tm e w = (r, w')"
  shows "deliveries w' = deliveries w
         \<or> (\<exists>ch en. deliveries w' = deliveries w @ [(fst row, ch, en)])"
  using assms
  by (auto simp: send_personalized_email_def datetime_now_def Let_def
      split: option.splits if_splits sum.splits)

lemma df_add_column_length [simp]: "length (rows (df_add_column d name v)) = length (rows d)"
  by (simp add: df_add_column_def)

lemma df_at_set_length [simp]: "length (rows (df_at_set d i col v)) = length (rows d)"
  by (simp add: df_at_set_def Let_def)

lemma df_at_set_columns:
  "col \<in> set (columns d) \<Longrightarrow> columns (df_at_set d i col v) = columns d"
  by (simp add: df_at_set_def Let_def)

lemma df_at_set_columns_mono: "set (columns d) \<subseteq> set (columns (df_at_set d i col v))"
  by (auto simp: df_at_set_def Let_def df_add_column_def)

lemma df_at_set_other_row:
  "col \<in> set (columns d) \<Longrightarrow> j \<noteq> i \<Longrightarrow> rows (df_at_set d i col v) ! j = rows d ! j"
  by (simp add: df_at_set_def Let_def)

lemma df_at_set_same:
  "i < length (rows d) \<Longrightarrow> df_at (df_at_set d i col v) i col = Some v"
  by (simp add: df_at_def df_at_set_def Let_def df_add_column_def update_conv')

lemma df_at_set_keeps:
  assumes "df_at d j k = Some x" and "j \<noteq> i \<or> k \<noteq> col"
  shows "df_at (df_at_set d i col v) j k = Some x"
proof -
  have j: "j < length (rows d)" using assms(1) by (simp add: df_at_def split: if_splits)
  have m: "map_of (rows d ! j) k = Some x" using assms(1) j by (simp add: df_at_def)
  show ?thesis
  proof (cases "j = i")
    case True
    then have "k \<noteq> col" using assms(2) by simp
    then show ?thesis using True j m
      by (simp add: df_at_def df_at_set_def Let_def df_add_column_def update_conv')
  next
    case False
    then show ?thesis using j m
      by (simp add: df_at_def df_at_set_def Let_def df_add_column_def)
  qed
qed


lemma process_row_deliveries:
  assumes "process_row config e tpl row st = (r, st')"
  shows "deliveries (wld st') = deliveries (wld st)
         \<or> (\<exists>ch en. deliveries (wld st') = deliveries (wld st) @ [(fst row, ch, en)])"
proof -
  obtain x w' where s: "send_personalized_email row config tpl (TEST_MODE config) e (wld st) = (x, w')"
    by (cases "send_personalized_email row config tpl (TEST_MODE config) e (wld st)")
  have "deliveries (wld st') = deliveries w'"
    using assms s by (auto simp: process_row_def Let_def split: sum.splits if_splits)
  then show ?thesis using send_deliveries[OF s] by simp
qed

lemma process_row_new:
  assumes "process_row config e tpl row st = (r, st')"
  shows "\<exists>d1. deliveries (wld st') = deliveries (wld st) @ d1 \<and> length d1 \<le> 1
            \<and> (\<forall>d\<in>set d1. fst d = fst row)"
  using process_row_deliveries[OF assms]
proof (elim disjE exE)
  assume "deliveries (wld st') = deliveries (wld st)"
  then show ?thesis by (intro exI[of _ "[]"]) simp
next
  fix ch en
  assume "deliveries (wld st') = deliveries (wld st) @ [(fst row, ch, en)]"
  then show ?thesis by (intro exI[of _ "[(fst row, ch, en)]"]) simp
qed

text \<open>What the body of the loop writes, for the result of the send step.\<close>

lemma process_row_df:
  assumes "process_row config e tpl row st = (r, st')"
  shows "df st' = df st
         \<or> (\<exists>msg. df st' = df_at_set (df st) (fst row) (c_status (COLUMNS config)) (Str msg))
         \<or> (\<exists>msg t. df st' = df_at_set
                (df_at_set (df st) (fst row) (c_status (COLUMNS config)) (Str msg))
                (fst row) (c_timestamp (COLUMNS config)) (Str t))"
proof -
  obtain x w' where s: "send_personalized_email row config tpl (TEST_MODE config) e (wld st) = (x, w')"
    by (cases "send_personalized_email row config tpl (TEST_MODE config) e (wld st)")
  show ?thesis
  proof (cases x)
    case (Inl err)
    then have "df st' = df st" using assms s by (auto simp: process_row_def)
    then show ?thesis by simp
  next
    case (Inr res)
    obtain success msg third where res: "res = (success, msg, third)" by (cases res)
    let ?t = "case third of None \<Rightarrow> [] | Some t \<Rightarrow> t"
    let ?d1 = "df_at_set (df st) (fst row) (c_status (COLUMNS config)) (Str msg)"
    have "df st' = (if ?t \<noteq> []
                    then df_at_set ?d1 (fst row) (c_timestamp (COLUMNS config)) (Str ?t)
                    else ?d1)"
      using assms s Inr res by (auto simp: process_row_def Let_def)
    then show ?thesis by (cases "?t \<noteq> []") auto
  qed
qed

lemma process_row_length:
  assumes "process_row config e tpl row st = (r, st')"
  shows "length (rows (df st')) = length (rows (df st))"
  using process_row_df[OF assms] by auto

lemma process_row_keeps:
  assumes "process_row config e tpl row st = (r, st')"
    and "df_at (df st) j k = Some x" and "j \<noteq> fst row"
  shows "df_at (df st') j k = Some x"
  using process_row_df[OF assms(1)] assms(2,3) by (auto intro!: df_at_set_keeps)

lemma process_row_exact:
  assumes "process_row config e tpl row st = (r, st')"
    and "c_status (COLUMNS config) \<in> set (columns (df st))"
    and "c_timestamp (COLUMNS config) \<in> set (columns (df st))"
    and "j \<noteq> fst row"
  shows "rows (df st') ! j = rows (df st) ! j"
  using process_row_df[OF assms(1)] assms(2,3,4)
  by (auto simp: df_at_set_other_row df_at_set_columns)

lemma process_row_count:
  assumes "process_row config e tpl row st = (r, st')"
  shows "emails_sent_this_run st' = (if r = None then Suc (emails_sent_this_run st) else emails_sent_this_run st)"
  using assms
  by (auto simp: process_row_def Let_def split: sum.splits if_splits prod.splits)

lemma loop_length:
  "campaign_loop config e tpl rs st = (r, st') \<Longrightarrow> length (rows (df st')) = length (rows (df st))"
proof (induction rs arbitrary: st)
  case Nil
  then show ?case by simp
next
  case (Cons row rs)
  then show ?case
    by (auto split: option.splits if_splits prod.splits simp: process_row_length)
qed

lemma loop_keeps:
  assumes "campaign_loop config e tpl rs st = (r, st')"
    and "\<forall>row\<in>set rs. fst row = j \<longrightarrow> skipped config row"
    and "df_at (df st) j k = Some x"
  shows "df_at (df st') j k = Some x"
  using assms
proof (induction rs arbitrary: st)
  case Nil
  then show ?case by simp
next
  case (Cons row rs)
  show ?case
  proof (cases "map_of (snd row) (c_status (COLUMNS config))")
    case None
    then show ?thesis using Cons.prems by simp
  next
    case (Some c)
    show ?thesis
    proof (cases "already_sent c")
      case True
      then show ?thesis using Some Cons by simp
    next
      case False
      then have j: "j \<noteq> fst row" using Some Cons.prems(2) by (auto simp: skipped_def)
      show ?thesis
      proof (cases "MAX_EMAILS_PER_RUN config \<le> int (emails_sent_this_run st)")
        case True
        then show ?thesis using Some False Cons.prems by simp
      next
        case lt: False
        obtain y st1 where p: "process_row config e tpl row st = (y, st1)"
          by (cases "process_row config e tpl row st")
        have r1: "df_at (df st1) j k = Some x"
          using process_row_keeps[OF p Cons.prems(3) j] .
        show ?thesis
        proof (cases y)
          case None
          then have "campaign_loop config e tpl rs st1 = (r, st')"
            using Cons.prems(1) Some False lt p by simp
          then show ?thesis using Cons.IH Cons.prems(2) r1 by simp
        next
          case (Some err)
          then have "st' = st1" using Cons.prems(1) \<open>map_of _ _ = Some c\<close> False lt p by simp
          then show ?thesis using r1 by simp
        qed
      qed
    qed
  qed
qed

lemma loop_deliveries:
  assumes "campaign_loop config e tpl rs st = (r, st')"
  shows "\<exists>ds. deliveries (wld st') = deliveries (wld st) @ ds
           \<and> int (length ds) \<le> max 0 (MAX_EMAILS_PER_RUN config - int (emails_sent_this_run st))
           \<and> (\<forall>d\<in>set ds. \<exists>row\<in>set rs. fst row = fst d \<and> \<not> skipped config row)"
  using assms
proof (induction rs arbitrary: st)
  case Nil
  then show ?case by simp
next
  case (Cons row rs)
  show ?case
  proof (cases "map_of (snd row) (c_status (COLUMNS config))")
    case None
    then show ?thesis using Cons.prems by simp
  next
    case (Some c)
    show ?thesis
    proof (cases "already_sent c")
      case True
      then have "campaign_loop config e tpl rs st = (r, st')" using Some Cons.prems by simp
      from Cons.IH[OF this] show ?thesis by auto
    next
      case False
      then have ns: "\<not> skipped config row" using Some by (simp add: skipped_def)
      show ?thesis
      proof (cases "MAX_EMAILS_PER_RUN config \<le> int (emails_sent_this_run st)")
        case True
        then show ?thesis using Some False Cons.prems by simp
      next
        case lt: False
        obtain x st1 where p: "process_row config e tpl row st = (x, st1)"
          by (cases "process_row config e tpl row st")
        from process_row_new[OF p]
        obtain d1 where d1: "deliveries (wld st1) = deliveries (wld st) @ d1" "length d1 \<le> 1"
          "\<forall>d\<in>set d1. fst d = fst row"
          by blast
        show ?thesis
        proof (cases x)
          case None
          then have l: "campaign_loop config e tpl rs st1 = (r, st')"
            using Cons.prems(1) Some False lt p by simp
          have c1: "emails_sent_this_run st1 = Suc (emails_sent_this_run st)"
            using process_row_count[OF p] None by simp
          from Cons.IH[OF l] obtain ds where ds: "deliveries (wld st') = deliveries (wld st1) @ ds"
            "int (length ds) \<le> max 0 (MAX_EMAILS_PER_RUN config - int (emails_sent_this_run st1))"
            "\<forall>d\<in>set ds. \<exists>row\<in>set rs. fst row = fst d \<and> \<not> skipped config row"
            by blast
          have a: "deliveries (wld st') = deliveries (wld st) @ (d1 @ ds)" using d1(1) ds(1) by simp
          have b: "int (length (d1 @ ds)) \<le> max 0 (MAX_EMAILS_PER_RUN config - int (emails_sent_this_run st))"
            using d1(2) ds(2) c1 lt by simp
          have c: "\<forall>d\<in>set (d1 @ ds). \<exists>row'\<in>set (row # rs). fst row' = fst d \<and> \<not> skipped config row'"
            using d1(3) ds(3) ns by auto
          show ?thesis using a b c by blast
        next
          case (Some err)
          then have "st' = st1" using Cons.prems(1) \<open>map_of _ _ = Some c\<close> False lt p by simp
          moreover have "int (length d1) \<le> max 0 (MAX_EMAILS_PER_RUN config - int (emails_sent_this_run st))"
            using d1(2) lt by simp
          moreover have "\<forall>d\<in>set d1. \<exists>row'\<in>set (row # rs). fst row' = fst d \<and> \<not> skipped config row'"
            using d1(3) ns by auto
          ultimately show ?thesis using d1(1) by blast
        qed
      qed
    qed
  qed
qed

lemma loop_count_cap:
  assumes "campaign_loop config e tpl rs st = (r, st')"
  shows "int (emails_sent_this_run st')
           \<le> max (int (emails_sent_this_run st)) (MAX_EMAILS_PER_RUN config)"
  using assms
proof (induction rs arbitrary: st)
  case Nil
  then show ?case by simp
next
  case (Cons row rs)
  show ?case
  proof (cases "map_of (snd row) (c_status (COLUMNS config))")
    case None
    then show ?thesis using Cons.prems by simp
  next
    case (Some c)
    show ?thesis
    proof (cases "already_sent c")
      case True
      then show ?thesis using Some Cons by simp
    next
      case False
      show ?thesis
      proof (cases "MAX_EMAILS_PER_RUN config \<le> int (emails_sent_this_run st)")
        case True
        then show ?thesis using Some False Cons.prems by simp
      next
        case lt: False
        obtain y st1 where p: "process_row config e tpl row st = (y, st1)"
          by (cases "process_row config e tpl row st")
        have c1: "int (emails_sent_this_run st1) \<le> MAX_EMAILS_PER_RUN config"
          using process_row_count[OF p] lt by (simp split: if_splits)
        show ?thesis
        proof (cases y)
          case None
          then have "campaign_loop config e tpl rs st1 = (r, st')"
            using Cons.prems(1) Some False lt p by simp
          from Cons.IH[OF this] show ?thesis using c1 by simp
        next
          case (Some err)
          then have "st' = st1" using Cons.prems(1) \<open>map_of _ _ = Some c\<close> False lt p by simp
          then show ?thesis using c1 by simp
        qed
      qed
    qed
  qed
qed

lemma add_step_rows:
  assumes "\<exists>xs. rows d = map (\<lambda>r. r @ xs) (rows d0) \<and> set (columns d0) \<subseteq> set (columns d)"
  shows "\<exists>xs. rows (if name \<notin> set (columns d) then df_add_column d name v else d)
               = map (\<lambda>r. r @ xs) (rows d0)
             \<and> set (columns d0)
                 \<subseteq> set (columns (if name \<notin> set (columns d) then df_add_column d name v else d))"
proof -
  from assms obtain xs where xs: "rows d = map (\<lambda>r. r @ xs) (rows d0)"
    and c: "set (columns d0) \<subseteq> set (columns d)" by blast
  show ?thesis
  proof (cases "name \<notin> set (columns d)")
    case True
    have "rows (df_add_column d name v) = map (\<lambda>r. r @ (xs @ [(name, v)])) (rows d0)"
      by (simp add: df_add_column_def xs)
    moreover have "set (columns d0) \<subseteq> set (columns (df_add_column d name v))"
      using c by (auto simp: df_add_column_def)
    ultimately show ?thesis using True by auto
  next
    case False
    then show ?thesis using xs c by auto
  qed
qed

lemma add_optional_rows:
  "\<exists>xs. rows (add_optional_columns config d0) = map (\<lambda>r. r @ xs) (rows d0)
        \<and> set (columns d0) \<subseteq> set (columns (add_optional_columns config d0))"
proof -
  have 0: "\<exists>xs. rows d0 = map (\<lambda>r. r @ xs) (rows d0) \<and> set (columns d0) \<subseteq> set (columns d0)"
    by (intro exI[of _ "[]"]) simp
  show ?thesis unfolding add_optional_columns_def fold_simps id_apply comp_apply
    by (intro add_step_rows 0)
qed

lemma add_optional_keeps:
  assumes "df_at d0 j k = Some x"
  shows "df_at (add_optional_columns config d0) j k = Some x"
proof -
  obtain xs where xs: "rows (add_optional_columns config d0) = map (\<lambda>r. r @ xs) (rows d0)"
    using add_optional_rows by blast
  have j: "j < length (rows d0)" using assms by (simp add: df_at_def split: if_splits)
  show ?thesis using assms j by (simp add: df_at_def xs)
qed

lemma add_optional_length [simp]:
  "length (rows (add_optional_columns config d0)) = length (rows d0)"
proof -
  obtain xs where xs: "rows (add_optional_columns config d0) = map (\<lambda>r. r @ xs) (rows d0)"
    using add_optional_rows by blast
  show ?thesis by (simp add: xs)
qed

lemma iterrows_set:
  "row \<in> set (iterrows d) \<Longrightarrow> fst row < length (rows d) \<and> snd row = rows d ! fst row"
  by (auto simp: iterrows_def in_set_zip)

lemma loop_new_deliveries:
  assumes "campaign_loop config e tpl rs st = (r, st')"
  shows "int (length (new_deliveries (wld st) (wld st')))
           \<le> max 0 (MAX_EMAILS_PER_RUN config - int (emails_sent_this_run st))"
    and "\<forall>d\<in>set (new_deliveries (wld st) (wld st')). \<exists>row\<in>set rs. fst row = fst d \<and> \<not> skipped config row"
  using loop_deliveries[OF assms] by (auto simp: new_deliveries_def)

text \<open>The three ways in which \<open>main\<close> ends.\<close>

lemma main_cases:
  obtains (stopped) "snd (main config e tpl d0 w0) = (None, w0)"
  | (crashed) err st where
      "campaign_loop config e tpl (iterrows (add_optional_columns config d0))
         \<lparr>df = add_optional_columns config d0, successful_emails = 0, failed_emails = 0,
          emails_sent_this_run = 0, wld = w0\<rparr> = (Some err, st)"
      "snd (main config e tpl d0 w0) = (None, wld st)"
  | (finished) st where
      "campaign_loop config e tpl (iterrows (add_optional_columns config d0))
         \<lparr>df = add_optional_columns config d0, successful_emails = 0, failed_emails = 0,
          emails_sent_this_run = 0, wld = w0\<rparr> = (None, st)"
      "snd (main config e tpl d0 w0) = (Some (df st), wld st)"
proof -
  let ?d1 = "add_optional_columns config d0"
  let ?st0 = "\<lparr>df = ?d1, successful_emails = 0, failed_emails = 0, emails_sent_this_run = 0, wld = w0\<rparr>"
  obtain r st' where l: "campaign_loop config e tpl (iterrows ?d1) ?st0 = (r, st')"
    by (cases "campaign_loop config e tpl (iterrows ?d1) ?st0")
  show ?thesis
  proof (cases "snd (main config e tpl d0 w0) = (None, w0)")
    case True
    then show ?thesis by (rule stopped)
  next
    case False
    show ?thesis
    proof (cases r)
      case None
      have "snd (main config e tpl d0 w0) = (Some (df st'), wld st')"
        using False l None by (auto simp: main_def Let_def split: if_splits)
      then show ?thesis using l None finished by blast
    next
      case (Some err)
      have "snd (main config e tpl d0 w0) = (None, wld st')"
        using False l Some by (auto simp: main_def Let_def split: if_splits)
      then show ?thesis using l Some crashed by blast
    qed
  qed
qed

lemma global_attachments_ready:
  "env_ready config e \<Longrightarrow> \<exists>g. global_attachments e (ATTACHMENTS_FOLDER config) = Inr g"
  by (auto simp: env_ready_def global_attachments_def split: option.splits)

lemma send_no_to:
  assumes "SMTP_PORT e \<noteq> None" "\<not> getenv_missing (EMAIL_SENDER e)" "\<not> getenv_missing (EMAIL_PASSWORD e)"
    and "parse_email_list (series_get row (c_to (COLUMNS config)) (Str [])) = []"
  shows "send_personalized_email row config tpl tm e w
         = (Inr (False, ''No valid TO email addresses'', None), w)"
  using assms by (auto simp: send_personalized_email_def Let_def split: option.splits)

lemma strip_nonspace_head: "\<not> py_isspace c \<Longrightarrow> py_strip (c # s) \<noteq> []"
  by (auto simp: py_strip_def dropWhile_append)

lemma stamp_nonempty: "strftime_stamp d \<noteq> []"
  by (simp add: strftime_stamp_def)

lemma send_test_mode:
  assumes "env_ready config e"
    and "parse_email_list (series_get row (c_to (COLUMNS config)) (Str [])) \<noteq> []"
  shows "fst (send_personalized_email row config tpl True e w)
           = Inr (True, ''Test mode - not sent'', None)"
    and "\<exists>en. deliveries (snd (send_personalized_email row config tpl True e w))
           = deliveries w @ [(fst row, Preview, en)]"
proof -
  obtain g where g: "global_attachments e (ATTACHMENTS_FOLDER config) = Inr g"
    using global_attachments_ready[OF assms(1)] by blast
  obtain p where p: "SMTP_PORT e = Some p" using assms(1) by (auto simp: env_ready_def)
  have c: "\<not> getenv_missing (EMAIL_SENDER e)" "\<not> getenv_missing (EMAIL_PASSWORD e)"
    using assms(1) by (auto simp: env_ready_def)
  show "fst (send_personalized_email row config tpl True e w)
           = Inr (True, ''Test mode - not sent'', None)"
    using assms(2) g p c
    by (simp add: send_personalized_email_def Let_def datetime_now_def split del: if_split)
  show "\<exists>en. deliveries (snd (send_personalized_email row config tpl True e w))
           = deliveries w @ [(fst row, Preview, en)]"
    using assms(2) g p c
    by (simp add: send_personalized_email_def Let_def datetime_now_def split del: if_split)
qed

lemma send_live:
  assumes "env_ready config e"
    and "parse_email_list (series_get row (c_to (COLUMNS config)) (Str [])) \<noteq> []"
  shows "\<exists>en. deliveries (snd (send_personalized_email row config tpl False e w))
                = deliveries w @ [(fst row, Live, en)]
              \<and> fst (send_personalized_email row config tpl False e w)
                = (case smtp e (length (deliveries w)) en of
                     None \<Rightarrow> Inr (True, ''Sent successfully'',
                                   Some (strftime_stamp (clock e (Suc (Suc (ticks w))))))
                   | Some reason \<Rightarrow> Inr (False, ''Failed: '' @ reason, Some []))"
proof -
  obtain g where g: "global_attachments e (ATTACHMENTS_FOLDER config) = Inr g"
    using global_attachments_ready[OF assms(1)] by blast
  obtain p where p: "SMTP_PORT e = Some p" using assms(1) by (auto simp: env_ready_def)
  have c: "\<not> getenv_missing (EMAIL_SENDER e)" "\<not> getenv_missing (EMAIL_PASSWORD e)"
    using assms(1) by (auto simp: env_ready_def)
  show ?thesis
    using assms(2) g p c
    by (auto simp: send_personalized_email_def Let_def datetime_now_def split: option.splits)
qed

lemma send_total:
  assumes "env_ready config e"
  shows "\<exists>x. fst (send_personalized_email row config tpl tm e w) = Inr x"
proof -
  obtain g where g: "global_attachments e (ATTACHMENTS_FOLDER config) = Inr g"
    using global_attachments_ready[OF assms(1)] by blast
  obtain p where p: "SMTP_PORT e = Some p" using assms(1) by (auto simp: env_ready_def)
  have c: "\<not> getenv_missing (EMAIL_SENDER e)" "\<not> getenv_missing (EMAIL_PASSWORD e)"
    using assms(1) by (auto simp: env_ready_def)
  show ?thesis
    using g p c
    by (auto simp: send_personalized_email_def Let_def datetime_now_def split: option.splits)
qed

lemma process_row_total:
  assumes "env_ready config e"
  shows "fst (process_row config e tpl row st) = None"
proof -
  obtain x where "fst (send_personalized_email row config tpl (TEST_MODE config) e (wld st)) = Inr x"
    using send_total[OF assms] by blast
  then show ?thesis
    by (cases "send_personalized_email row config tpl (TEST_MODE config) e (wld st)")
       (auto simp: process_row_def Let_def split: prod.splits)
qed

lemma process_row_result:
  assumes s: "fst (send_personalized_email row config tpl (TEST_MODE config) e (wld st))
                = Inr (success, msg, third)"
  shows "fst (process_row config e tpl row st) = None"
    and "df (snd (process_row config e tpl row st))
         = (if (case third of None \<Rightarrow> [] | Some t \<Rightarrow> t) \<noteq> []
            then df_at_set (df_at_set (df st) (fst row) (c_status (COLUMNS config)) (Str msg))
                   (fst row) (c_timestamp (COLUMNS config))
                   (Str (case third of None \<Rightarrow> [] | Some t \<Rightarrow> t))
            else df_at_set (df st) (fst row) (c_status (COLUMNS config)) (Str msg))"
    and "successful_emails (snd (process_row config e tpl row st))
         = (if success then Suc (successful_emails st) else successful_emails st)"
    and "failed_emails (snd (process_row config e tpl row st))
         = (if success then failed_emails st else Suc (failed_emails st))"
    and "emails_sent_this_run (snd (process_row config e tpl row st)) = Suc (emails_sent_this_run st)"
    and "deliveries (wld (snd (process_row config e tpl row st)))
         = deliveries (snd (send_personalized_email row config tpl (TEST_MODE config) e (wld st)))"
  using s
  by (cases "send_personalized_email row config tpl (TEST_MODE config) e (wld st)";
      auto simp: process_row_def Let_def split: option.splits)+

lemma process_row_cells:
  assumes s: "fst (send_personalized_email row config tpl (TEST_MODE config) e (wld st))
                = Inr (success, msg, third)"
    and i: "fst row < length (rows (df st))"
  shows "c_status (COLUMNS config) \<noteq> c_timestamp (COLUMNS config) \<or> third = None \<or> third = Some []
         \<Longrightarrow> df_at (df (snd (process_row config e tpl row st))) (fst row) (c_status (COLUMNS config))
             = Some (Str msg)"
    and "third = Some t \<Longrightarrow> t \<noteq> []
         \<Longrightarrow> df_at (df (snd (process_row config e tpl row st))) (fst row) (c_timestamp (COLUMNS config))
             = Some (Str t)"
    and "df_at (df st) (fst row) k = Some x \<Longrightarrow> k \<noteq> c_status (COLUMNS config)
         \<Longrightarrow> k \<noteq> c_timestamp (COLUMNS config) \<or> third = None \<or> third = Some []
         \<Longrightarrow> df_at (df (snd (process_row config e tpl row st))) (fst row) k = Some x"
proof -
  let ?d1 = "df_at_set (df st) (fst row) (c_status (COLUMNS config)) (Str msg)"
  have a: "df_at ?d1 (fst row) (c_status (COLUMNS config)) = Some (Str msg)"
    using i by (rule df_at_set_same)
  have i1: "fst row < length (rows ?d1)" using i by simp
  show "df_at (df (snd (process_row config e tpl row st))) (fst row) (c_status (COLUMNS config))
             = Some (Str msg)"
    if "c_status (COLUMNS config) \<noteq> c_timestamp (COLUMNS config) \<or> third = None \<or> third = Some []"
    using that a by (auto simp: process_row_result(2)[OF s] intro!: df_at_set_keeps)
  show "df_at (df (snd (process_row config e tpl row st))) (fst row) (c_timestamp (COLUMNS config))
             = Some (Str t)" if "third = Some t" "t \<noteq> []"
    using that i1 by (simp add: process_row_result(2)[OF s] df_at_set_same)
  show "df_at (df (snd (process_row config e tpl row st))) (fst row) k = Some x"
    if "df_at (df st) (fst row) k = Some x" "k \<noteq> c_status (COLUMNS config)"
       "k \<noteq> c_timestamp (COLUMNS config) \<or> third = None \<or> third = Some []"
    using that by (auto simp: process_row_result(2)[OF s] intro!: df_at_set_keeps)
qed

lemma loop_no_crash:
  assumes "env_ready config e"
    and "\<forall>row\<in>set rs. map_of (snd row) (c_status (COLUMNS config)) \<noteq> None"
  shows "fst (campaign_loop config e tpl rs st) = None"
  using assms(2)
proof (induction rs arbitrary: st)
  case Nil
  show ?case by simp
next
  case (Cons row rs)
  obtain c where c: "map_of (snd row) (c_status (COLUMNS config)) = Some c"
    using Cons.prems by auto
  obtain st1 where p: "process_row config e tpl row st = (None, st1)"
    using process_row_total[OF assms(1), of tpl row st]
    by (cases "process_row config e tpl row st") auto
  show ?case using c p Cons by simp
qed


text \<open>
  The loop over rows that it gets through: every one has a status cell, and the cap is
  not reached before the last of them.
\<close>

lemma loop_reach:
  assumes ready: "env_ready config e"
    and keys: "\<forall>row\<in>set pre. map_of (snd row) (c_status (COLUMNS config)) \<noteq> None"
    and cap: "int (emails_sent_this_run st)
                + int (length (filter (\<lambda>r. \<not> skipped config r) pre))
              \<le> MAX_EMAILS_PER_RUN config"
  shows "\<exists>st1 ds.
           campaign_loop config e tpl (pre @ rest) st = campaign_loop config e tpl rest st1
         \<and> emails_sent_this_run st1
             = emails_sent_this_run st + length (filter (\<lambda>r. \<not> skipped config r) pre)
         \<and> length (rows (df st1)) = length (rows (df st))
         \<and> (\<forall>j k x. j \<notin> fst ` set pre \<longrightarrow> df_at (df st) j k = Some x
                     \<longrightarrow> df_at (df st1) j k = Some x)
         \<and> deliveries (wld st1) = deliveries (wld st) @ ds
         \<and> (\<forall>d\<in>set ds. fst d \<in> fst ` set pre)"
  using keys cap
proof (induction pre arbitrary: st)
  case Nil
  show ?case by (intro exI[of _ st] exI[of _ "[]"]) simp
next
  case (Cons row pre)
  obtain c where c: "map_of (snd row) (c_status (COLUMNS config)) = Some c"
    using Cons.prems(1) by auto
  have keys': "\<forall>row\<in>set pre. map_of (snd row) (c_status (COLUMNS config)) \<noteq> None"
    using Cons.prems(1) by simp
  show ?case
  proof (cases "already_sent c")
    case True
    then have sk: "skipped config row" using c by (simp add: skipped_def)
    have cap': "int (emails_sent_this_run st)
                + int (length (filter (\<lambda>r. \<not> skipped config r) pre))
              \<le> MAX_EMAILS_PER_RUN config"
      using Cons.prems(2) sk by simp
    from Cons.IH[OF keys' cap'] obtain st1 ds where
      h: "campaign_loop config e tpl (pre @ rest) st = campaign_loop config e tpl rest st1"
         "emails_sent_this_run st1
             = emails_sent_this_run st + length (filter (\<lambda>r. \<not> skipped config r) pre)"
         "length (rows (df st1)) = length (rows (df st))"
         "\<forall>j k x. j \<notin> fst ` set pre \<longrightarrow> df_at (df st) j k = Some x
                     \<longrightarrow> df_at (df st1) j k = Some x"
         "deliveries (wld st1) = deliveries (wld st) @ ds"
         "\<forall>d\<in>set ds. fst d \<in> fst ` set pre"
      by blast
    have 1: "campaign_loop config e tpl ((row # pre) @ rest) st = campaign_loop config e tpl rest st1"
      using c True h(1) by simp
    have 2: "emails_sent_this_run st1
             = emails_sent_this_run st + length (filter (\<lambda>r. \<not> skipped config r) (row # pre))"
      using h(2) sk by simp
    have 4: "\<forall>j k x. j \<notin> fst ` set (row # pre) \<longrightarrow> df_at (df st) j k = Some x
                     \<longrightarrow> df_at (df st1) j k = Some x"
      using h(4) by simp
    have 6: "\<forall>d\<in>set ds. fst d \<in> fst ` set (row # pre)" using h(6) by simp
    show ?thesis using 1 2 h(3) 4 h(5) 6 by blast
  next
    case False
    then have ns: "\<not> skipped config row" using c by (simp add: skipped_def)
    have lt: "\<not> MAX_EMAILS_PER_RUN config \<le> int (emails_sent_this_run st)"
      using Cons.prems(2) ns by simp
    obtain st0 where p: "process_row config e tpl row st = (None, st0)"
      using process_row_total[OF ready, of tpl row st]
      by (cases "process_row config e tpl row st") auto
    have c0: "emails_sent_this_run st0 = Suc (emails_sent_this_run st)"
      using process_row_count[OF p] by simp
    have cap': "int (emails_sent_this_run st0)
                + int (length (filter (\<lambda>r. \<not> skipped config r) pre))
              \<le> MAX_EMAILS_PER_RUN config"
      using Cons.prems(2) ns c0 by simp
    from process_row_new[OF p] obtain d1 where
      d1: "deliveries (wld st0) = deliveries (wld st) @ d1" "\<forall>d\<in>set d1. fst d = fst row"
      by blast
    from Cons.IH[OF keys' cap'] obtain st1 ds where
      h: "campaign_loop config e tpl (pre @ rest) st0 = campaign_loop config e tpl rest st1"
         "emails_sent_this_run st1
             = emails_sent_this_run st0 + length (filter (\<lambda>r. \<not> skipped config r) pre)"
         "length (rows (df st1)) = length (rows (df st0))"
         "\<forall>j k x. j \<notin> fst ` set pre \<longrightarrow> df_at (df st0) j k = Some x
                     \<longrightarrow> df_at (df st1) j k = Some x"
         "deliveries (wld st1) = deliveries (wld st0) @ ds"
         "\<forall>d\<in>set ds. fst d \<in> fst ` set pre"
      by blast
    have 1: "campaign_loop config e tpl ((row # pre) @ rest) st = campaign_loop config e tpl rest st1"
      using c False lt p h(1) by simp
    have 2: "emails_sent_this_run st1
             = emails_sent_this_run st + length (filter (\<lambda>r. \<not> skipped config r) (row # pre))"
      using h(2) ns c0 by simp
    have 3: "length (rows (df st1)) = length (rows (df st))"
      using h(3) process_row_length[OF p] by simp
    have 4: "\<forall>j k x. j \<notin> fst ` set (row # pre) \<longrightarrow> df_at (df st) j k = Some x
                     \<longrightarrow> df_at (df st1) j k = Some x"
    proof (intro allI impI)
      fix j k x
      assume j: "j \<notin> fst ` set (row # pre)" and x: "df_at (df st) j k = Some x"
      have "j \<noteq> fst row" using j by auto
      from process_row_keeps[OF p x this] have "df_at (df st0) j k = Some x" .
      moreover have "j \<notin> fst ` set pre" using j by auto
      ultimately show "df_at (df st1) j k = Some x" using h(4) by blast
    qed
    have 5: "deliveries (wld st1) = deliveries (wld st) @ (d1 @ ds)"
      using h(5) d1(1) by simp
    have 6: "\<forall>d\<in>set (d1 @ ds). fst d \<in> fst ` set (row # pre)"
      using h(6) d1(2) by auto
    show ?thesis using 1 2 3 4 5 6 by blast
  qed
qed


lemma wf_keys:
  assumes "well_formed d" and "df_at d i k = Some c"
  shows "k \<in> set (columns d)" and "\<forall>r\<in>set (rows d). map_of r k \<noteq> None"
proof -
  have i: "i < length (rows d)" and m: "map_of (rows d ! i) k = Some c"
    using assms(2) by (simp_all add: df_at_def split: if_splits)
  have w: "\<forall>r\<in>set (rows d). map fst r = columns d"
    using assms(1) by (simp add: well_formed_def list_all_iff)
  have "k \<in> fst ` set (rows d ! i)" using m by (metis map_of_eq_None_iff option.distinct(1))
  moreover have "map fst (rows d ! i) = columns d" using w i by simp
  ultimately show k: "k \<in> set (columns d)" by (metis list.set_map)
  show "\<forall>r\<in>set (rows d). map_of r k \<noteq> None"
  proof
    fix r assume "r \<in> set (rows d)"
    then have "map fst r = columns d" using w by simp
    then have "k \<in> fst ` set r" using k by (metis list.set_map)
    then show "map_of r k \<noteq> None" by (simp add: map_of_eq_None_iff)
  qed
qed

lemma iterrows_split:
  assumes "i < length (rows d)"
  shows "iterrows d = take i (iterrows d) @ (i, rows d ! i) # drop (Suc i) (iterrows d)"
    and "i \<notin> fst ` set (take i (iterrows d))"
    and "i \<notin> fst ` set (drop (Suc i) (iterrows d))"
proof -
  have l: "i < length (iterrows d)" using assms by (simp add: iterrows_def)
  have n: "iterrows d ! i = (i, rows d ! i)" using assms by (simp add: iterrows_def)
  show "iterrows d = take i (iterrows d) @ (i, rows d ! i) # drop (Suc i) (iterrows d)"
    using id_take_nth_drop[OF l] n by simp
  have f: "map fst (iterrows d) = [0..<length (rows d)]" by (simp add: iterrows_def)
  have "map fst (take i (iterrows d)) = take i [0..<length (rows d)]"
    by (simp only: take_map[symmetric] f)
  then have "set (map fst (take i (iterrows d))) = {0..<i}" using assms by simp
  then show "i \<notin> fst ` set (take i (iterrows d))" by (simp only: list.set_map) simp
  have "map fst (drop (Suc i) (iterrows d)) = drop (Suc i) [0..<length (rows d)]"
    by (simp only: drop_map[symmetric] f)
  then have "set (map fst (drop (Suc i) (iterrows d))) = {Suc i..<length (rows d)}" by simp
  then show "i \<notin> fst ` set (drop (Suc i) (iterrows d))" by (simp only: list.set_map) simp
qed

lemma skipped_append:
  "map_of r (c_status (COLUMNS config)) \<noteq> None
   \<Longrightarrow> skipped config (j, r @ xs) = skipped config (j, r)"
  by (auto simp: skipped_def map_add_def split: option.splits)

lemma optional_view:
  assumes "\<forall>r\<in>set (rows d0). map_of r (c_status (COLUMNS config)) \<noteq> None"
  shows "\<forall>row\<in>set (iterrows (add_optional_columns config d0)).
            map_of (snd row) (c_status (COLUMNS config)) \<noteq> None"
    and "length (filter (\<lambda>r. \<not> skipped config r) (take i (iterrows (add_optional_columns config d0))))
         = length (filter (\<lambda>r. \<not> skipped config r) (take i (iterrows d0)))"
proof -
  obtain xs where xs: "rows (add_optional_columns config d0) = map (\<lambda>r. r @ xs) (rows d0)"
    using add_optional_rows by blast
  have it: "iterrows (add_optional_columns config d0)
            = map (\<lambda>(j, r). (j, r @ xs)) (iterrows d0)"
    by (simp add: iterrows_def xs zip_map2)
  have k: "\<forall>row\<in>set (iterrows d0). map_of (snd row) (c_status (COLUMNS config)) \<noteq> None"
    using assms by (auto simp: iterrows_def dest: set_zip_rightD)
  show "\<forall>row\<in>set (iterrows (add_optional_columns config d0)).
            map_of (snd row) (c_status (COLUMNS config)) \<noteq> None"
    using k by (auto simp: it map_add_def split: option.splits)
  have "filter (\<lambda>r. \<not> skipped config r) (take i (iterrows (add_optional_columns config d0)))
        = map (\<lambda>(j, r). (j, r @ xs))
            (filter ((\<lambda>r. \<not> skipped config r) \<circ> (\<lambda>(j, r). (j, r @ xs))) (take i (iterrows d0)))"
    by (simp only: it take_map filter_map)
  moreover have "filter ((\<lambda>r. \<not> skipped config r) \<circ> (\<lambda>(j, r). (j, r @ xs))) (take i (iterrows d0))
        = filter (\<lambda>r. \<not> skipped config r) (take i (iterrows d0))"
  proof (rule filter_cong[OF refl])
    fix row assume "row \<in> set (take i (iterrows d0))"
    then have "row \<in> set (iterrows d0)" by (rule in_set_takeD)
    then have "map_of (snd row) (c_status (COLUMNS config)) \<noteq> None" using k by simp
    then show "((\<lambda>r. \<not> skipped config r) \<circ> (\<lambda>(j, r). (j, r @ xs))) row = (\<not> skipped config row)"
      by (cases row) (simp add: skipped_append)
  qed
  ultimately show "length (filter (\<lambda>r. \<not> skipped config r)
                     (take i (iterrows (add_optional_columns config d0))))
         = length (filter (\<lambda>r. \<not> skipped config r) (take i (iterrows d0)))"
    by simp
qed


lemma main_runs_loop:
  assumes "run_starts config e d0"
    and "campaign_loop config e tpl (iterrows (add_optional_columns config d0))
           \<lparr>df = add_optional_columns config d0, successful_emails = 0, failed_emails = 0,
            emails_sent_this_run = 0, wld = w0\<rparr> = (None, st)"
  shows "main config e tpl d0 w0
         = (Finished (emails_sent_this_run st) (successful_emails st) (failed_emails st)
              (int (count_pending config (add_optional_columns config d0))
               - int (emails_sent_this_run st)),
            Some (df st), wld st)"
  using assms by (auto simp: main_def run_starts_def Let_def)

text \<open>
  A run that gets to the row \<open>i\<close>: what it hands to the send step, and what is in the
  table and in the log of the delivery channel at the end.
\<close>

lemma run_reaches_row:
  assumes ready: "env_ready config e"
    and wf: "well_formed d0"
    and starts: "run_starts config e d0"
    and st: "df_at d0 i (c_status (COLUMNS config)) = Some c"
    and pend: "\<not> already_sent c"
    and cap: "int (length (filter (\<lambda>r. \<not> skipped config r) (take i (iterrows d0))))
              < MAX_EMAILS_PER_RUN config"
  shows "\<exists>w A B success msg third n s f rem dF wF.
       deliveries w = deliveries w0 @ A \<and> i \<notin> fst ` set A
     \<and> fst (send_personalized_email (i, rows (add_optional_columns config d0) ! i) config tpl
              (TEST_MODE config) e w) = Inr (success, msg, third)
     \<and> main config e tpl d0 w0 = (Finished n s f rem, Some dF, wF)
     \<and> deliveries wF
         = deliveries (snd (send_personalized_email (i, rows (add_optional_columns config d0) ! i)
                              config tpl (TEST_MODE config) e w)) @ B
     \<and> i \<notin> fst ` set B
     \<and> (c_status (COLUMNS config) \<noteq> c_timestamp (COLUMNS config) \<or> third = None
          \<or> third = Some []
          \<longrightarrow> df_at dF i (c_status (COLUMNS config)) = Some (Str msg))
     \<and> (\<forall>t. third = Some t \<longrightarrow> t \<noteq> []
          \<longrightarrow> df_at dF i (c_timestamp (COLUMNS config)) = Some (Str t))
     \<and> (\<forall>k x. df_at d0 i k = Some x \<longrightarrow> k \<noteq> c_status (COLUMNS config)
          \<longrightarrow> k \<noteq> c_timestamp (COLUMNS config) \<or> third = None \<or> third = Some []
          \<longrightarrow> df_at dF i k = Some x)"
proof -
  let ?d1 = "add_optional_columns config d0"
  let ?st0 = "\<lparr>df = ?d1, successful_emails = 0, failed_emails = 0, emails_sent_this_run = 0,
              wld = w0\<rparr>"
  let ?pre = "take i (iterrows ?d1)"
  let ?row = "(i, rows ?d1 ! i)"
  let ?rest = "drop (Suc i) (iterrows ?d1)"
  let ?S = "c_status (COLUMNS config)"
  let ?T = "c_timestamp (COLUMNS config)"
  have i: "i < length (rows d0)" using st by (simp add: df_at_def split: if_splits)
  have i1: "i < length (rows ?d1)" using i by simp
  have keys0: "\<forall>r\<in>set (rows d0). map_of r ?S \<noteq> None" using wf_keys(2)[OF wf st] .
  have keys: "\<forall>row\<in>set (iterrows ?d1). map_of (snd row) ?S \<noteq> None"
    using optional_view(1)[OF keys0] .
  have split: "iterrows ?d1 = ?pre @ ?row # ?rest"
    and ipre: "i \<notin> fst ` set ?pre" and irest: "i \<notin> fst ` set ?rest"
    using iterrows_split[OF i1] by blast+
  have kpre: "\<forall>row\<in>set ?pre. map_of (snd row) ?S \<noteq> None"
    using keys by (meson in_set_takeD)
  have krest: "\<forall>row\<in>set ?rest. map_of (snd row) ?S \<noteq> None"
    using keys by (meson in_set_dropD)
  have cap1: "int (emails_sent_this_run ?st0)
              + int (length (filter (\<lambda>r. \<not> skipped config r) ?pre))
              \<le> MAX_EMAILS_PER_RUN config"
    using cap optional_view(2)[OF keys0, of i] by simp
  from loop_reach[OF ready kpre cap1, of tpl "?row # ?rest"] obtain st1 A where
    h: "campaign_loop config e tpl (?pre @ ?row # ?rest) ?st0
          = campaign_loop config e tpl (?row # ?rest) st1"
       "emails_sent_this_run st1
          = emails_sent_this_run ?st0 + length (filter (\<lambda>r. \<not> skipped config r) ?pre)"
       "length (rows (df st1)) = length (rows (df ?st0))"
       "\<forall>j k x. j \<notin> fst ` set ?pre \<longrightarrow> df_at (df ?st0) j k = Some x
                  \<longrightarrow> df_at (df st1) j k = Some x"
       "deliveries (wld st1) = deliveries (wld ?st0) @ A"
       "\<forall>d\<in>set A. fst d \<in> fst ` set ?pre"
    by blast
  have cap2: "\<not> MAX_EMAILS_PER_RUN config \<le> int (emails_sent_this_run st1)"
    using h(2) cap optional_view(2)[OF keys0, of i] by simp
  have st1: "map_of (rows ?d1 ! i) ?S = Some c"
    using add_optional_keeps[OF st, of config] i1 by (simp add: df_at_def)
  obtain success msg third where
    s: "fst (send_personalized_email ?row config tpl (TEST_MODE config) e (wld st1))
        = Inr (success, msg, third)"
    using send_total[OF ready, of ?row tpl "TEST_MODE config" "wld st1"]
    by (metis prod_cases3)
  obtain st2 where p: "process_row config e tpl ?row st1 = (None, st2)"
    using process_row_result(1)[OF s] by (metis prod.collapse)
  have e2: "snd (process_row config e tpl ?row st1) = st2" using p by simp
  have l1: "campaign_loop config e tpl (?row # ?rest) st1 = campaign_loop config e tpl ?rest st2"
    using st1 pend cap2 p by simp
  obtain st' where l2: "campaign_loop config e tpl ?rest st2 = (None, st')"
    using loop_no_crash[OF ready krest, of tpl st2]
    by (metis prod.collapse)
  have whole: "campaign_loop config e tpl (iterrows ?d1) ?st0 = (None, st')"
    using split h(1) l1 l2 by simp
  have m: "main config e tpl d0 w0
         = (Finished (emails_sent_this_run st') (successful_emails st') (failed_emails st')
              (int (count_pending config ?d1) - int (emails_sent_this_run st')),
            Some (df st'), wld st')"
    using main_runs_loop[OF starts whole] .
  have sk: "\<forall>row\<in>set ?rest. fst row = i \<longrightarrow> skipped config row"
    using irest by (metis imageI)
  from loop_deliveries[OF l2] obtain B where
    B: "deliveries (wld st') = deliveries (wld st2) @ B"
       "\<forall>d\<in>set B. \<exists>row\<in>set ?rest. fst row = fst d \<and> \<not> skipped config row"
    by blast
  have iB: "i \<notin> fst ` set B"
  proof
    assume "i \<in> fst ` set B"
    then obtain d where "d \<in> set B" "fst d = i" by auto
    with B(2) obtain row where "row \<in> set ?rest" "fst row = i" by metis
    then show False using irest by (metis imageI)
  qed
  have iA: "i \<notin> fst ` set A"
  proof
    assume "i \<in> fst ` set A"
    then obtain d where "d \<in> set A" "fst d = i" by auto
    with h(6) show False using ipre by metis
  qed
  have ir: "fst ?row < length (rows (df st1))" using h(3) i1 by simp
  have dl: "deliveries (wld st')
            = deliveries (snd (send_personalized_email ?row config tpl (TEST_MODE config) e (wld st1)))
              @ B"
    using B(1) process_row_result(6)[OF s] e2 by simp
  have c1: "df_at (df st') i ?S = Some (Str msg)"
    if "?S \<noteq> ?T \<or> third = None \<or> third = Some []"
    using loop_keeps[OF l2 sk] process_row_cells(1)[OF s ir that] e2 by simp
  have c2: "df_at (df st') i ?T = Some (Str t)" if "third = Some t" "t \<noteq> []" for t
    using loop_keeps[OF l2 sk] process_row_cells(2)[OF s ir that] e2 by simp
  have c3: "df_at (df st') i k = Some x"
    if "df_at d0 i k = Some x" "k \<noteq> ?S" "k \<noteq> ?T \<or> third = None \<or> third = Some []" for k x
  proof -
    have "df_at (df ?st0) i k = Some x" using add_optional_keeps[OF that(1)] by simp
    then have "df_at (df st1) i k = Some x" using h(4) ipre by blast
    then have "df_at (df st1) (fst ?row) k = Some x" by simp
    from process_row_cells(3)[OF s ir this that(2,3)]
    show ?thesis using loop_keeps[OF l2 sk] e2 by simp
  qed
  have w: "deliveries (wld st1) = deliveries w0 @ A" using h(5) by simp
  show ?thesis
    using w iA s m dl iB c1 c2 c3 by blast
qed


lemma loop_row_get:
  assumes "df_at d0 i k = Some x"
  shows "series_get (loop_row config d0 i) k dflt = x" and "fst (loop_row config d0 i) = i"
proof -
  have "i < length (rows d0)" using assms by (simp add: df_at_def split: if_splits)
  then show "series_get (loop_row config d0 i) k dflt = x"
    using add_optional_keeps[OF assms, of config]
    by (simp add: df_at_def series_get_def loop_row_def)
  show "fst (loop_row config d0 i) = i" by (simp add: loop_row_def)
qed

lemma live_session_none:
  assumes "deliveries w' = deliveries w @ A @ B"
    and "i \<notin> fst ` set A" and "i \<notin> fst ` set B"
  shows "\<not> live_session_ok e w w' i"
proof
  assume "live_session_ok e w w' i"
  then obtain k where k0: "k \<in> set [length (deliveries w)..<length (deliveries w')]"
      "case deliveries w' ! k of (j, ch, en) \<Rightarrow> j = i \<and> ch = Live \<and> smtp e k en = None"
    unfolding live_session_ok_def list_ex_iff by (rule bexE)
  obtain j ch en' where d: "deliveries w' ! k = (j, ch, en')" by (cases "deliveries w' ! k")
  have k: "length (deliveries w) \<le> k" "k < length (deliveries w')"
      "fst (deliveries w' ! k) = i"
    using k0 d by simp_all
  have "deliveries w' ! k = (A @ B) ! (k - length (deliveries w))"
    using k(1) assms(1) by (simp add: nth_append)
  moreover have "k - length (deliveries w) < length (A @ B)"
    using k(1,2) assms(1) by simp
  ultimately have "deliveries w' ! k \<in> set (A @ B)" by (metis nth_mem)
  then show False using k(3) assms(2,3) by auto
qed

lemma live_session_one:
  assumes "deliveries w' = deliveries w @ A @ [(i, Live, en)] @ B"
    and "i \<notin> fst ` set A" and "i \<notin> fst ` set B"
  shows "live_session_ok e w w' i \<longleftrightarrow> smtp e (length (deliveries w) + length A) en = None"
proof
  let ?k0 = "length (deliveries w) + length A"
  assume "live_session_ok e w w' i"
  then obtain k where k0: "k \<in> set [length (deliveries w)..<length (deliveries w')]"
      "case deliveries w' ! k of (j, ch, en) \<Rightarrow> j = i \<and> ch = Live \<and> smtp e k en = None"
    unfolding live_session_ok_def list_ex_iff by (rule bexE)
  obtain j ch en' where d: "deliveries w' ! k = (j, ch, en')" by (cases "deliveries w' ! k")
  have k: "length (deliveries w) \<le> k" "k < length (deliveries w')"
      "fst (deliveries w' ! k) = i"
      "smtp e k (snd (snd (deliveries w' ! k))) = None"
    using k0 d by simp_all
  have "k = ?k0"
  proof (rule ccontr)
    assume ne: "k \<noteq> ?k0"
    show False
    proof (cases "k < ?k0")
      case True
      then have "deliveries w' ! k = A ! (k - length (deliveries w))"
        using k(1) assms(1) by (auto simp: nth_append)
      moreover have "k - length (deliveries w) < length A" using True k(1) by simp
      ultimately have "deliveries w' ! k \<in> set A" by (metis nth_mem)
      then show False using k(3) assms(2) by auto
    next
      case False
      then have g: "?k0 < k" using ne by simp
      have "deliveries w' ! k = ((deliveries w @ A @ [(i, Live, en)]) @ B) ! k"
        using assms(1) by simp
      also have "\<dots> = B ! (k - length (deliveries w @ A @ [(i, Live, en)]))"
        using g by (subst nth_append) simp
      finally have "deliveries w' ! k = B ! (k - Suc ?k0)" by simp
      moreover have "k - Suc ?k0 < length B" using g k(2) assms(1) by simp
      ultimately have "deliveries w' ! k \<in> set B" by (metis nth_mem)
      then show False using k(3) assms(3) by auto
    qed
  qed
  moreover have "deliveries w' ! ?k0 = (i, Live, en)" using assms(1) by (simp add: nth_append)
  ultimately show "smtp e ?k0 en = None" using k(4) by simp
next
  let ?k0 = "length (deliveries w) + length A"
  assume ok: "smtp e ?k0 en = None"
  have "deliveries w' ! ?k0 = (i, Live, en)" using assms(1) by (simp add: nth_append)
  moreover have "?k0 \<in> set [length (deliveries w)..<length (deliveries w')]"
    using assms(1) by simp
  ultimately show "live_session_ok e w w' i"
    unfolding live_session_ok_def list_ex_iff using ok by (intro bexI[of _ ?k0]) simp_all
qed


lemma status_texts_set:
  "already_sent (Str ''No valid TO email addresses'')"
  "already_sent (Str (''Failed: '' @ reason))"
  "already_sent (Str ''Sent successfully'')"
  "already_sent (Str ''Test mode - not sent'')"
  by (simp_all add: already_sent_def strip_nonspace_head py_isspace_def)

lemma filter_label_one:
  assumes "i \<notin> fst ` set A" and "i \<notin> fst ` set B"
  shows "filter (\<lambda>d. fst d = i) (A @ [(i, ch, en)] @ B) = [(i, ch, en)]"
    and "filter (\<lambda>d. fst d = i) (A @ B) = []"
proof -
  have "filter (\<lambda>d. fst d = i) A = []" "filter (\<lambda>d. fst d = i) B = []"
    using assms by (auto simp: filter_empty_conv)
  then show "filter (\<lambda>d. fst d = i) (A @ [(i, ch, en)] @ B) = [(i, ch, en)]"
    and "filter (\<lambda>d. fst d = i) (A @ B) = []"
    by simp_all
qed

lemma default_names:
  "c_status (COLUMNS short_config) = ''Email Status''"
  "c_timestamp (COLUMNS short_config) = ''Sent Timestamp''"
  "c_to (COLUMNS short_config) = ''To''"
  "c_status (COLUMNS test_config) = ''Email Status''"
  "c_timestamp (COLUMNS test_config) = ''Sent Timestamp''"
  "c_to (COLUMNS test_config) = ''To''"
  "c_status (COLUMNS cap_one_config) = ''Email Status''"
  "c_timestamp (COLUMNS cap_one_config) = ''Sent Timestamp''"
  "c_to (COLUMNS cap_one_config) = ''To''"
  by (simp_all add: short_config_def default_config_def test_config_def cap_one_config_def
      default_columns_def)

section \<open>A run of the campaign\<close>

text \<open>
  C1: for every row of the loaded table whose status cell is set (not missing, and not
  empty after trimming), a run never uses the delivery channel for that row, in neither
  variant, and the status cell and the timestamp cell of the row in the table after the
  run are the ones of the loaded table. This holds however the run ends.
\<close>

theorem sent_rows_untouched:
  assumes st: "df_at d0 i (c_status (COLUMNS config)) = Some c"
    and sent: "already_sent c"
    and ts: "df_at d0 i (c_timestamp (COLUMNS config)) = Some t"
  shows "i \<notin> fst ` set (new_deliveries w0 (snd (snd (main config e tpl d0 w0))))
         \<and> df_at (persisted d0 (main config e tpl d0 w0)) i (c_status (COLUMNS config)) = Some c
         \<and> df_at (persisted d0 (main config e tpl d0 w0)) i (c_timestamp (COLUMNS config)) = Some t"
proof -
  let ?d1 = "add_optional_columns config d0"
  have st1: "df_at ?d1 i (c_status (COLUMNS config)) = Some c"
    and ts1: "df_at ?d1 i (c_timestamp (COLUMNS config)) = Some t"
    using st ts by (simp_all only: add_optional_keeps)
  have sk: "\<forall>row\<in>set (iterrows ?d1). fst row = i \<longrightarrow> skipped config row"
    using iterrows_set[of _ ?d1] st1 sent by (auto simp: skipped_def df_at_def)
  show ?thesis
  proof (cases rule: main_cases[of config e tpl d0 w0])
    case stopped
    then show ?thesis using st ts by (simp add: new_deliveries_def persisted_def)
  next
    case (crashed err st')
    have "i \<notin> fst ` set (new_deliveries w0 (wld st'))"
      using loop_new_deliveries(2)[OF crashed(1)] sk by force
    then show ?thesis using crashed(2) st ts by (simp add: persisted_def)
  next
    case (finished st')
    have "i \<notin> fst ` set (new_deliveries w0 (wld st'))"
      using loop_new_deliveries(2)[OF finished(1)] sk by force
    moreover have "df_at (df st') i (c_status (COLUMNS config)) = Some c"
      using loop_keeps[OF finished(1) sk] st1 by simp
    moreover have "df_at (df st') i (c_timestamp (COLUMNS config)) = Some t"
      using loop_keeps[OF finished(1) sk] ts1 by simp
    ultimately show ?thesis using finished(2) by (simp add: persisted_def)
  qed
qed

theorem sent_rows_untouched_witness:
  "0 \<notin> fst ` set (new_deliveries world0
                     (snd (snd (main short_config quiet_env short_template sample_sent world0))))
   \<and> df_at (persisted sample_sent (main short_config quiet_env short_template sample_sent world0))
        0 ''Email Status'' = Some (Str ''Sent successfully'')
   \<and> df_at (persisted sample_sent (main short_config quiet_env short_template sample_sent world0))
        0 ''Sent Timestamp'' = Some (Str ''2025-06-01 10:00:00'')
   \<and> fst (main short_config quiet_env short_template sample_sent world0) = Finished 2 2 0 0"
proof -
  have h1: "df_at sample_sent 0 (c_status (COLUMNS short_config)) = Some (Str ''Sent successfully'')"
    by code_simp
  have h2: "already_sent (Str ''Sent successfully'')" by code_simp
  have h3: "df_at sample_sent 0 (c_timestamp (COLUMNS short_config))
            = Some (Str ''2025-06-01 10:00:00'')"
    by code_simp
  have r: "fst (main short_config quiet_env short_template sample_sent world0) = Finished 2 2 0 0"
    by code_simp
  show ?thesis
    using sent_rows_untouched[OF h1 h2 h3, where ?w0.0 = world0 and e = quiet_env
        and tpl = short_template] r
    by (simp add: default_names)
qed

text \<open>
  C2: for every table, configuration, environment and template, the uses of the delivery
  channel in one run, previews included, are at most \<open>MAX_EMAILS_PER_RUN\<close>, and so are
  the rows that a finished run has handed to the send step; with a negative cap there is
  none.
\<close>

theorem send_cap:
  "int (length (new_deliveries w0 (snd (snd (main config e tpl d0 w0)))))
     \<le> max 0 (MAX_EMAILS_PER_RUN config)
   \<and> (case fst (main config e tpl d0 w0) of
         Finished processed s f rem \<Rightarrow> int processed \<le> max 0 (MAX_EMAILS_PER_RUN config)
       | _ \<Rightarrow> True)"
proof -
  have 1: "int (length (new_deliveries w0 (snd (snd (main config e tpl d0 w0)))))
           \<le> max 0 (MAX_EMAILS_PER_RUN config)"
  proof (cases rule: main_cases[of config e tpl d0 w0])
    case stopped
    then show ?thesis by (simp add: new_deliveries_def)
  next
    case (crashed err st)
    then show ?thesis using loop_new_deliveries(1)[OF crashed(1)] by simp
  next
    case (finished st)
    then show ?thesis using loop_new_deliveries(1)[OF finished(1)] by simp
  qed
  let ?d1 = "add_optional_columns config d0"
  let ?st0 = "\<lparr>df = ?d1, successful_emails = 0, failed_emails = 0, emails_sent_this_run = 0,
              wld = w0\<rparr>"
  obtain r st' where l: "campaign_loop config e tpl (iterrows ?d1) ?st0 = (r, st')"
    by (cases "campaign_loop config e tpl (iterrows ?d1) ?st0")
  have "int (emails_sent_this_run st') \<le> max 0 (MAX_EMAILS_PER_RUN config)"
    using loop_count_cap[OF l] by simp
  then have 2: "case fst (main config e tpl d0 w0) of
         Finished processed s f rem \<Rightarrow> int processed \<le> max 0 (MAX_EMAILS_PER_RUN config)
       | _ \<Rightarrow> True"
    using l by (auto simp: main_def Let_def split: option.splits)
  show ?thesis using 1 2 by simp
qed

text \<open>
  C3, as the claim states it, fails in test mode: the run over the sample table counts
  three successful sends, writes a status into the rows and leaves their timestamp cells
  empty.
\<close>

theorem test_mode_success_without_timestamp:
  "fst (main test_config quiet_env short_template sample_data world0) = Finished 3 3 0 0
   \<and> df_at (persisted sample_data (main test_config quiet_env short_template sample_data world0))
        0 ''Email Status'' = Some (Str ''Test mode - not sent'')
   \<and> df_at (persisted sample_data (main test_config quiet_env short_template sample_data world0))
        0 ''Sent Timestamp'' = Some (Str [])"
  by code_simp

text \<open>
  C3, amended: in live mode, for every row that the run gets to (its status cell is
  not set, and fewer rows than the cap with no status come before it), with an
  environment in which the send step does not raise: if the session for the row goes
  through, the status cell of the row becomes \<open>Sent successfully\<close> and its timestamp
  cell a non-empty text; otherwise (a call of the session raises, or the row has no valid
  \<open>To\<close> address) the status cell becomes a text that is not empty after trimming and
  the timestamp cell stays as it was loaded. The status column and the timestamp column
  are two columns.
\<close>

theorem live_row_outcome:
  assumes ready: "env_ready config e"
    and wf: "well_formed d0"
    and starts: "run_starts config e d0"
    and live: "\<not> TEST_MODE config"
    and st: "df_at d0 i (c_status (COLUMNS config)) = Some c"
    and pend: "\<not> already_sent c"
    and cap: "int (length (filter (\<lambda>r. \<not> skipped config r) (take i (iterrows d0))))
              < MAX_EMAILS_PER_RUN config"
    and distinct: "c_status (COLUMNS config) \<noteq> c_timestamp (COLUMNS config)"
    and ts: "df_at d0 i (c_timestamp (COLUMNS config)) = Some x"
  shows "if live_session_ok e w0 (snd (snd (main config e tpl d0 w0))) i
         then df_at (persisted d0 (main config e tpl d0 w0)) i (c_status (COLUMNS config))
                = Some (Str ''Sent successfully'')
              \<and> (\<exists>stamp. stamp \<noteq> []
                   \<and> df_at (persisted d0 (main config e tpl d0 w0)) i (c_timestamp (COLUMNS config))
                       = Some (Str stamp))
         else (\<exists>msg. df_at (persisted d0 (main config e tpl d0 w0)) i (c_status (COLUMNS config))
                       = Some (Str msg)
                    \<and> already_sent (Str msg))
              \<and> df_at (persisted d0 (main config e tpl d0 w0)) i (c_timestamp (COLUMNS config))
                  = Some x"
proof -
  let ?row = "loop_row config d0 i"
  let ?S = "c_status (COLUMNS config)"
  let ?T = "c_timestamp (COLUMNS config)"
  from run_reaches_row[OF ready wf starts st pend cap, where tpl = tpl and ?w0.0 = w0]
  obtain w1 A B success msg third n s f rem dF wF where
    h: "deliveries w1 = deliveries w0 @ A" "i \<notin> fst ` set A"
       "fst (send_personalized_email ?row config tpl (TEST_MODE config) e w1)
          = Inr (success, msg, third)"
       "main config e tpl d0 w0 = (Finished n s f rem, Some dF, wF)"
       "deliveries wF
          = deliveries (snd (send_personalized_email ?row config tpl (TEST_MODE config) e w1)) @ B"
       "i \<notin> fst ` set B"
       "?S \<noteq> ?T \<or> third = None \<or> third = Some []
          \<longrightarrow> df_at dF i ?S = Some (Str msg)"
       "\<forall>t. third = Some t \<longrightarrow> t \<noteq> [] \<longrightarrow> df_at dF i ?T = Some (Str t)"
       "\<forall>k x. df_at d0 i k = Some x \<longrightarrow> k \<noteq> ?S
          \<longrightarrow> k \<noteq> ?T \<or> third = None \<or> third = Some []
          \<longrightarrow> df_at dF i k = Some x"
    unfolding loop_row_def by blast
  have pF: "persisted d0 (main config e tpl d0 w0) = dF" and wF: "snd (snd (main config e tpl d0 w0)) = wF"
    using h(4) by (simp_all add: persisted_def)
  have status: "df_at dF i ?S = Some (Str msg)" using h(7) distinct by simp
  have r: "SMTP_PORT e \<noteq> None" "\<not> getenv_missing (EMAIL_SENDER e)"
      "\<not> getenv_missing (EMAIL_PASSWORD e)"
    using ready by (simp_all add: env_ready_def)
  show ?thesis
  proof (cases "parse_email_list (series_get ?row (c_to (COLUMNS config)) (Str [])) = []")
    case True
    have send: "send_personalized_email ?row config tpl (TEST_MODE config) e w1
           = (Inr (False, ''No valid TO email addresses'', None), w1)"
      using send_no_to[OF r True] .
    have m: "msg = ''No valid TO email addresses''" "third = None" using h(3) send by simp_all
    have "deliveries wF = deliveries w0 @ A @ B" using h(1,5) send by simp
    then have no: "\<not> live_session_ok e w0 wF i" using h(2,6) by (rule live_session_none)
    have "df_at dF i ?T = Some x" using h(9) ts distinct m(2) by simp
    then show ?thesis using no status m(1) status_texts_set(1) by (simp add: pF wF)
  next
    case False
    from send_live[OF ready False, of tpl w1] live obtain en where
      en: "deliveries (snd (send_personalized_email ?row config tpl (TEST_MODE config) e w1))
             = deliveries w1 @ [(i, Live, en)]"
          "fst (send_personalized_email ?row config tpl (TEST_MODE config) e w1)
             = (case smtp e (length (deliveries w1)) en of
                  None \<Rightarrow> Inr (True, ''Sent successfully'',
                                Some (strftime_stamp (clock e (Suc (Suc (ticks w1))))))
                | Some reason \<Rightarrow> Inr (False, ''Failed: '' @ reason, Some []))"
      by (auto simp: loop_row_def)
    have "deliveries wF = deliveries w0 @ A @ [(i, Live, en)] @ B" using h(1,5) en(1) by simp
    from live_session_one[OF this h(2,6), of e]
    have ok: "live_session_ok e w0 wF i \<longleftrightarrow> smtp e (length (deliveries w1)) en = None"
      using h(1) by simp
    show ?thesis
    proof (cases "smtp e (length (deliveries w1)) en")
      case None
      then have m: "msg = ''Sent successfully''"
          "third = Some (strftime_stamp (clock e (Suc (Suc (ticks w1)))))"
        using h(3) en(2) by simp_all
      have "df_at dF i ?T = Some (Str (strftime_stamp (clock e (Suc (Suc (ticks w1))))))"
        using h(8) m(2) stamp_nonempty by simp
      then show ?thesis using ok None status m(1) stamp_nonempty by (auto simp: pF wF)
    next
      case (Some reason)
      then have m: "msg = ''Failed: '' @ reason" "third = Some []"
        using h(3) en(2) by simp_all
      have "df_at dF i ?T = Some x" using h(9) ts distinct m(2) by simp
      then show ?thesis using ok Some status m(1) status_texts_set(2) by (simp add: pF wF)
    qed
  qed
qed

theorem live_row_outcome_witness:
  "live_session_ok quiet_env world0
     (snd (snd (main short_config quiet_env short_template sample_data world0))) 1
   \<and> df_at (persisted sample_data (main short_config quiet_env short_template sample_data world0))
        1 ''Email Status'' = Some (Str ''Sent successfully'')
   \<and> (\<exists>stamp. stamp \<noteq> []
         \<and> df_at (persisted sample_data
                    (main short_config quiet_env short_template sample_data world0))
              1 ''Sent Timestamp'' = Some (Str stamp))
   \<and> \<not> live_session_ok refusing_env world0
         (snd (snd (main short_config refusing_env short_template sample_data world0))) 1
   \<and> (\<exists>msg. df_at (persisted sample_data
                      (main short_config refusing_env short_template sample_data world0))
               1 ''Email Status'' = Some (Str msg)
            \<and> already_sent (Str msg))
   \<and> df_at (persisted sample_data
              (main short_config refusing_env short_template sample_data world0))
        1 ''Sent Timestamp'' = Some (Str [])"
proof -
  have ready: "env_ready short_config quiet_env" "env_ready short_config refusing_env"
    by code_simp+
  have wf: "well_formed sample_data" by code_simp
  have starts: "run_starts short_config quiet_env sample_data"
    "run_starts short_config refusing_env sample_data"
    by code_simp+
  have live: "\<not> TEST_MODE short_config" by code_simp
  have st: "df_at sample_data 1 (c_status (COLUMNS short_config)) = Some (Str [])" by code_simp
  have pend: "\<not> already_sent (Str [])" by code_simp
  have cap: "int (length (filter (\<lambda>r. \<not> skipped short_config r) (take 1 (iterrows sample_data))))
             < MAX_EMAILS_PER_RUN short_config"
    by code_simp
  have distinct: "c_status (COLUMNS short_config) \<noteq> c_timestamp (COLUMNS short_config)"
    by code_simp
  have ts: "df_at sample_data 1 (c_timestamp (COLUMNS short_config)) = Some (Str [])"
    by code_simp
  have ok: "live_session_ok quiet_env world0
     (snd (snd (main short_config quiet_env short_template sample_data world0))) 1"
    by code_simp
  have no: "\<not> live_session_ok refusing_env world0
     (snd (snd (main short_config refusing_env short_template sample_data world0))) 1"
    by code_simp
  note a = live_row_outcome[OF ready(1) wf starts(1) live st pend cap distinct ts,
      where tpl = short_template and ?w0.0 = world0]
  note b = live_row_outcome[OF ready(2) wf starts(2) live st pend cap distinct ts,
      where tpl = short_template and ?w0.0 = world0]
  show ?thesis using a b ok no by (simp add: default_names)
qed

text \<open>
  C4, as the claim states it, fails: with a cap of one and two pending rows, of which
  the first has no valid \<open>To\<close> address, the run ends at the cap after the first row
  and has not used the delivery channel at all.
\<close>

theorem cap_one_no_delivery:
  "rows (first_two sample_bad_to) = [rows sample_bad_to ! 0, rows sample_bad_to ! 1]
   \<and> count_pending cap_one_config (first_two sample_bad_to) = 2
   \<and> MAX_EMAILS_PER_RUN cap_one_config = 1
   \<and> fst (main cap_one_config quiet_env short_template (first_two sample_bad_to) world0)
       = Finished 1 0 1 1
   \<and> new_deliveries world0
         (snd (snd (main cap_one_config quiet_env short_template (first_two sample_bad_to) world0)))
       = []"
  by code_simp

text \<open>
  C4, amended: with a cap of one and a table of two rows with no status, a run that
  gets to the loop, in an environment in which the send step does not raise, hands the
  first row to the send step and stops at the second: it processes one row, uses the
  delivery channel once if the first row has a valid \<open>To\<close> address and not at all
  otherwise, never for the second row, and the second row of the table written back is
  the row that the loop got, cell for cell. The timestamp column is in the loaded
  table.
\<close>

theorem cap_one_two_pending:
  assumes ready: "env_ready config e"
    and starts: "run_starts config e d0"
    and two: "rows d0 = [r0, r1]"
    and one: "MAX_EMAILS_PER_RUN config = 1"
    and s0: "map_of r0 (c_status (COLUMNS config)) = Some c0" and p0: "\<not> already_sent c0"
    and s1: "map_of r1 (c_status (COLUMNS config)) = Some c1" and p1: "\<not> already_sent c1"
    and tcol: "c_timestamp (COLUMNS config) \<in> set (columns d0)"
  shows "length (new_deliveries w0 (snd (snd (main config e tpl d0 w0))))
           = (if parse_email_list (series_get (loop_row config d0 0) (c_to (COLUMNS config)) (Str []))
                 = [] then 0 else 1)
       \<and> 1 \<notin> fst ` set (new_deliveries w0 (snd (snd (main config e tpl d0 w0))))
       \<and> rows (persisted d0 (main config e tpl d0 w0)) ! 1 = snd (loop_row config d0 1)
       \<and> (\<exists>s f rem. fst (main config e tpl d0 w0) = Finished 1 s f rem)"
proof -
  let ?d1 = "add_optional_columns config d0"
  let ?st0 = "\<lparr>df = ?d1, successful_emails = 0, failed_emails = 0, emails_sent_this_run = 0,
              wld = w0\<rparr>"
  let ?S = "c_status (COLUMNS config)"
  let ?T = "c_timestamp (COLUMNS config)"
  obtain xs where xs: "rows ?d1 = map (\<lambda>r. r @ xs) (rows d0)"
    and cs: "set (columns d0) \<subseteq> set (columns ?d1)"
    using add_optional_rows by blast
  have it: "iterrows ?d1 = [(0, r0 @ xs), (1, r1 @ xs)]"
    by (simp add: iterrows_def xs two upt_rec)
  have row0: "loop_row config d0 0 = (0, r0 @ xs)" and row1: "loop_row config d0 1 = (1, r1 @ xs)"
    by (simp_all add: loop_row_def xs two)
  have k0: "map_of (r0 @ xs) ?S = Some c0" and k1: "map_of (r1 @ xs) ?S = Some c1"
    using s0 s1 by simp_all
  obtain res where res: "fst (send_personalized_email (0, r0 @ xs) config tpl (TEST_MODE config) e w0)
                          = Inr res"
    using send_total[OF ready] by blast
  obtain success msg third where r3: "res = (success, msg, third)" by (cases res)
  have s: "fst (send_personalized_email (0, r0 @ xs) config tpl (TEST_MODE config) e (wld ?st0))
           = Inr (success, msg, third)"
    using res r3 by simp
  obtain st1 where p: "process_row config e tpl (0, r0 @ xs) ?st0 = (None, st1)"
    using process_row_result(1)[OF s] by (metis prod.collapse)
  have e1: "snd (process_row config e tpl (0, r0 @ xs) ?st0) = st1" using p by simp
  have c1: "emails_sent_this_run st1 = 1" using process_row_result(5)[OF s] e1 by simp
  have loop: "campaign_loop config e tpl (iterrows ?d1) ?st0 = (None, st1)"
    using k0 p0 k1 p1 one p c1 by (simp add: it)
  have m: "main config e tpl d0 w0
         = (Finished (emails_sent_this_run st1) (successful_emails st1) (failed_emails st1)
              (int (count_pending config ?d1) - int (emails_sent_this_run st1)),
            Some (df st1), wld st1)"
    using main_runs_loop[OF starts loop] .
  have S1: "?S \<in> set (columns (df ?st0))" using starts by (simp add: run_starts_def)
  have T1: "?T \<in> set (columns (df ?st0))" using tcol cs by auto
  have "rows (df st1) ! 1 = rows (df ?st0) ! 1"
    using process_row_exact[OF p S1 T1, of 1] by simp
  then have 3: "rows (persisted d0 (main config e tpl d0 w0)) ! 1 = snd (loop_row config d0 1)"
    using m by (simp add: persisted_def loop_row_def)
  have dl: "deliveries (wld st1)
            = deliveries (snd (send_personalized_email (0, r0 @ xs) config tpl (TEST_MODE config) e w0))"
    using process_row_result(6)[OF s] e1 by simp
  have r: "SMTP_PORT e \<noteq> None" "\<not> getenv_missing (EMAIL_SENDER e)"
      "\<not> getenv_missing (EMAIL_PASSWORD e)"
    using ready by (simp_all add: env_ready_def)
  have 12: "length (new_deliveries w0 (wld st1))
           = (if parse_email_list (series_get (0, r0 @ xs) (c_to (COLUMNS config)) (Str [])) = []
              then 0 else 1)
         \<and> 1 \<notin> fst ` set (new_deliveries w0 (wld st1))"
  proof (cases "parse_email_list (series_get (0, r0 @ xs) (c_to (COLUMNS config)) (Str [])) = []")
    case True
    have "send_personalized_email (0, r0 @ xs) config tpl (TEST_MODE config) e w0
           = (Inr (False, ''No valid TO email addresses'', None), w0)"
      using send_no_to[OF r True] .
    then show ?thesis using dl True by (simp add: new_deliveries_def)
  next
    case False
    have "\<exists>ch en. deliveries (snd (send_personalized_email (0, r0 @ xs) config tpl
                                      (TEST_MODE config) e w0))
                   = deliveries w0 @ [(0, ch, en)]"
    proof (cases "TEST_MODE config")
      case True
      then show ?thesis using send_test_mode(2)[OF ready False, of tpl w0] by auto
    next
      case live: False
      then show ?thesis using send_live[OF ready False, of tpl w0] by auto
    qed
    then show ?thesis using dl False by (auto simp: new_deliveries_def)
  qed
  show ?thesis using 12 3 m c1 by (simp add: row0)
qed

theorem cap_one_two_pending_witness:
  "length (new_deliveries world0
            (snd (snd (main cap_one_config quiet_env short_template (first_two sample_data) world0))))
     = 1
   \<and> 1 \<notin> fst ` set (new_deliveries world0
            (snd (snd (main cap_one_config quiet_env short_template (first_two sample_data) world0))))
   \<and> rows (persisted (first_two sample_data)
              (main cap_one_config quiet_env short_template (first_two sample_data) world0)) ! 1
       = rows sample_data ! 1
   \<and> (\<exists>s f rem. fst (main cap_one_config quiet_env short_template (first_two sample_data) world0)
                    = Finished 1 s f rem)"
proof -
  have ready: "env_ready cap_one_config quiet_env" by code_simp
  have starts: "run_starts cap_one_config quiet_env (first_two sample_data)" by code_simp
  have two: "rows (first_two sample_data) = [rows sample_data ! 0, rows sample_data ! 1]"
    by code_simp
  have one: "MAX_EMAILS_PER_RUN cap_one_config = 1" by code_simp
  have s0: "map_of (rows sample_data ! 0) (c_status (COLUMNS cap_one_config)) = Some (Str [])"
    and s1: "map_of (rows sample_data ! 1) (c_status (COLUMNS cap_one_config)) = Some (Str [])"
    by code_simp+
  have pend: "\<not> already_sent (Str [])" by code_simp
  have tcol: "c_timestamp (COLUMNS cap_one_config) \<in> set (columns (first_two sample_data))"
    by code_simp
  have v: "parse_email_list (series_get (loop_row cap_one_config (first_two sample_data) 0)
             (c_to (COLUMNS cap_one_config)) (Str [])) \<noteq> []"
    by code_simp
  have r1: "snd (loop_row cap_one_config (first_two sample_data) 1) = rows sample_data ! 1"
    by code_simp
  show ?thesis
    using cap_one_two_pending[OF ready starts two one s0 pend s1 pend tcol,
        where tpl = short_template and ?w0.0 = world0] v r1
    by simp
qed

text \<open>
  C5: for every row that the run gets to and whose \<open>To\<close> cell yields no valid
  address, in an environment in which the send step does not raise (the port is a
  number, the credentials are set), the send step returns the failure
  \<open>No valid TO email addresses\<close> and leaves the world as it is, the run never uses the
  delivery channel for the row, the table written back has that text in the status cell
  of the row, and the body of the loop counts the row as processed and as failed.
\<close>

theorem no_valid_to_is_recorded:
  assumes ready: "env_ready config e"
    and wf: "well_formed d0"
    and starts: "run_starts config e d0"
    and st: "df_at d0 i (c_status (COLUMNS config)) = Some c"
    and pend: "\<not> already_sent c"
    and cap: "int (length (filter (\<lambda>r. \<not> skipped config r) (take i (iterrows d0))))
              < MAX_EMAILS_PER_RUN config"
    and to: "df_at d0 i (c_to (COLUMNS config)) = Some t"
    and inv: "parse_email_list t = []"
  shows "send_personalized_email (loop_row config d0 i) config tpl (TEST_MODE config) e w
           = (Inr (False, ''No valid TO email addresses'', None), w)
       \<and> i \<notin> fst ` set (new_deliveries w0 (snd (snd (main config e tpl d0 w0))))
       \<and> df_at (persisted d0 (main config e tpl d0 w0)) i (c_status (COLUMNS config))
           = Some (Str ''No valid TO email addresses'')
       \<and> emails_sent_this_run (snd (process_row config e tpl (loop_row config d0 i) s0))
           = Suc (emails_sent_this_run s0)
       \<and> failed_emails (snd (process_row config e tpl (loop_row config d0 i) s0))
           = Suc (failed_emails s0)"
proof -
  have r: "SMTP_PORT e \<noteq> None" "\<not> getenv_missing (EMAIL_SENDER e)"
      "\<not> getenv_missing (EMAIL_PASSWORD e)"
    using ready by (simp_all add: env_ready_def)
  have g: "parse_email_list (series_get (loop_row config d0 i) (c_to (COLUMNS config)) (Str [])) = []"
    using inv by (simp add: loop_row_get(1)[OF to])
  have send: "send_personalized_email (loop_row config d0 i) config tpl tm e w'
           = (Inr (False, ''No valid TO email addresses'', None), w')" for w' tm
    using send_no_to[OF r g] .
  from run_reaches_row[OF ready wf starts st pend cap, where tpl = tpl and ?w0.0 = w0]
  obtain w1 A B success msg third n s f rem dF wF where
    h: "deliveries w1 = deliveries w0 @ A" "i \<notin> fst ` set A"
       "fst (send_personalized_email (loop_row config d0 i) config tpl (TEST_MODE config) e w1)
          = Inr (success, msg, third)"
       "main config e tpl d0 w0 = (Finished n s f rem, Some dF, wF)"
       "deliveries wF
          = deliveries (snd (send_personalized_email (loop_row config d0 i) config tpl
                               (TEST_MODE config) e w1)) @ B"
       "i \<notin> fst ` set B"
       "c_status (COLUMNS config) \<noteq> c_timestamp (COLUMNS config) \<or> third = None
          \<or> third = Some []
          \<longrightarrow> df_at dF i (c_status (COLUMNS config)) = Some (Str msg)"
    unfolding loop_row_def by blast
  have m: "msg = ''No valid TO email addresses''" "third = None"
    using h(3) send by simp_all
  have "deliveries wF = deliveries w0 @ A @ B" using h(1,5) send by simp
  then have "new_deliveries w0 wF = A @ B" by (simp add: new_deliveries_def)
  then have 2: "i \<notin> fst ` set (new_deliveries w0 (snd (snd (main config e tpl d0 w0))))"
    using h(2,4,6) by auto
  have 3: "df_at (persisted d0 (main config e tpl d0 w0)) i (c_status (COLUMNS config))
           = Some (Str ''No valid TO email addresses'')"
    using h(4,7) m by (simp add: persisted_def)
  have f: "fst (send_personalized_email (loop_row config d0 i) config tpl (TEST_MODE config) e
                  (wld s0)) = Inr (False, ''No valid TO email addresses'', None)"
    using send by simp
  show ?thesis
    using send 2 3 process_row_result(5)[OF f] process_row_result(4)[OF f] by simp
qed

theorem no_valid_to_is_recorded_witness:
  "send_personalized_email (loop_row short_config sample_bad_to 0) short_config short_template
     (TEST_MODE short_config) quiet_env world0
     = (Inr (False, ''No valid TO email addresses'', None), world0)
   \<and> 0 \<notin> fst ` set (new_deliveries world0
                     (snd (snd (main short_config quiet_env short_template sample_bad_to world0))))
   \<and> df_at (persisted sample_bad_to (main short_config quiet_env short_template sample_bad_to world0))
        0 ''Email Status'' = Some (Str ''No valid TO email addresses'')
   \<and> emails_sent_this_run
        (snd (process_row short_config quiet_env short_template (loop_row short_config sample_bad_to 0)
                (start_state sample_bad_to world0))) = 1
   \<and> failed_emails
        (snd (process_row short_config quiet_env short_template (loop_row short_config sample_bad_to 0)
                (start_state sample_bad_to world0))) = 1"
proof -
  have ready: "env_ready short_config quiet_env" by code_simp
  have wf: "well_formed sample_bad_to" by code_simp
  have starts: "run_starts short_config quiet_env sample_bad_to" by code_simp
  have st: "df_at sample_bad_to 0 (c_status (COLUMNS short_config)) = Some (Str [])" by code_simp
  have pend: "\<not> already_sent (Str [])" by code_simp
  have cap: "int (length (filter (\<lambda>r. \<not> skipped short_config r) (take 0 (iterrows sample_bad_to))))
             < MAX_EMAILS_PER_RUN short_config"
    by code_simp
  have to: "df_at sample_bad_to 0 (c_to (COLUMNS short_config)) = Some (Str ''john-at-example.com'')"
    by code_simp
  have inv: "parse_email_list (Str ''john-at-example.com'') = []" by code_simp
  have z: "emails_sent_this_run (start_state sample_bad_to world0) = 0"
    "failed_emails (start_state sample_bad_to world0) = 0"
    by (simp_all add: start_state_def)
  show ?thesis
    using no_valid_to_is_recorded[OF ready wf starts st pend cap to inv,
        where tpl = short_template and ?w0.0 = world0 and w = world0
          and ?s0.0 = "start_state sample_bad_to world0"] z
    by (simp add: default_names)
qed

text \<open>
  C10: in test mode, for every row that the run gets to and whose \<open>To\<close> cell yields
  a valid address, in an environment in which the send step does not raise, the send
  step reports success with the status \<open>Test mode - not sent\<close> and no timestamp; the
  table written back has that text in the status cell of the row and the timestamp cell
  as it was loaded; the body of the loop counts the row as successful; and the only use
  of the delivery channel for the row is one preview. The status column and the
  timestamp column are two columns.
\<close>

theorem test_mode_row:
  assumes ready: "env_ready config e"
    and wf: "well_formed d0"
    and starts: "run_starts config e d0"
    and test: "TEST_MODE config"
    and st: "df_at d0 i (c_status (COLUMNS config)) = Some c"
    and pend: "\<not> already_sent c"
    and cap: "int (length (filter (\<lambda>r. \<not> skipped config r) (take i (iterrows d0))))
              < MAX_EMAILS_PER_RUN config"
    and to: "df_at d0 i (c_to (COLUMNS config)) = Some t"
    and valid: "parse_email_list t \<noteq> []"
    and distinct: "c_status (COLUMNS config) \<noteq> c_timestamp (COLUMNS config)"
    and ts: "df_at d0 i (c_timestamp (COLUMNS config)) = Some x"
  shows "fst (send_personalized_email (loop_row config d0 i) config tpl (TEST_MODE config) e w)
           = Inr (True, ''Test mode - not sent'', None)
       \<and> df_at (persisted d0 (main config e tpl d0 w0)) i (c_status (COLUMNS config))
           = Some (Str ''Test mode - not sent'')
       \<and> df_at (persisted d0 (main config e tpl d0 w0)) i (c_timestamp (COLUMNS config)) = Some x
       \<and> successful_emails (snd (process_row config e tpl (loop_row config d0 i) s0))
           = Suc (successful_emails s0)
       \<and> (\<exists>en. filter (\<lambda>d. fst d = i)
                  (new_deliveries w0 (snd (snd (main config e tpl d0 w0))))
                = [(i, Preview, en)])"
proof -
  have g: "parse_email_list (series_get (loop_row config d0 i) (c_to (COLUMNS config)) (Str []))
           \<noteq> []"
    using valid by (simp add: loop_row_get(1)[OF to])
  have send: "fst (send_personalized_email (loop_row config d0 i) config tpl (TEST_MODE config) e w')
           = Inr (True, ''Test mode - not sent'', None)" for w'
    using send_test_mode(1)[OF ready g] test by simp
  from run_reaches_row[OF ready wf starts st pend cap, where tpl = tpl and ?w0.0 = w0]
  obtain w1 A B success msg third n s f rem dF wF where
    h: "deliveries w1 = deliveries w0 @ A" "i \<notin> fst ` set A"
       "fst (send_personalized_email (loop_row config d0 i) config tpl (TEST_MODE config) e w1)
          = Inr (success, msg, third)"
       "main config e tpl d0 w0 = (Finished n s f rem, Some dF, wF)"
       "deliveries wF
          = deliveries (snd (send_personalized_email (loop_row config d0 i) config tpl
                               (TEST_MODE config) e w1)) @ B"
       "i \<notin> fst ` set B"
       "c_status (COLUMNS config) \<noteq> c_timestamp (COLUMNS config) \<or> third = None
          \<or> third = Some []
          \<longrightarrow> df_at dF i (c_status (COLUMNS config)) = Some (Str msg)"
       "\<forall>k x. df_at d0 i k = Some x \<longrightarrow> k \<noteq> c_status (COLUMNS config)
          \<longrightarrow> k \<noteq> c_timestamp (COLUMNS config) \<or> third = None \<or> third = Some []
          \<longrightarrow> df_at dF i k = Some x"
    unfolding loop_row_def by blast
  have m: "msg = ''Test mode - not sent''" "third = None"
    using h(3) send by simp_all
  obtain en where en: "deliveries (snd (send_personalized_email (loop_row config d0 i) config tpl
                                          (TEST_MODE config) e w1))
                       = deliveries w1 @ [(i, Preview, en)]"
    using send_test_mode(2)[OF ready g, of tpl w1] test loop_row_get(2)[OF to, of config]
    by auto
  have "deliveries wF = deliveries w0 @ (A @ [(i, Preview, en)] @ B)" using h(1,5) en by simp
  then have "new_deliveries w0 wF = A @ [(i, Preview, en)] @ B" by (simp add: new_deliveries_def)
  then have 5: "filter (\<lambda>d. fst d = i) (new_deliveries w0 (snd (snd (main config e tpl d0 w0))))
                = [(i, Preview, en)]"
    using filter_label_one(1)[OF h(2,6)] h(4) by simp
  have 2: "df_at (persisted d0 (main config e tpl d0 w0)) i (c_status (COLUMNS config))
           = Some (Str ''Test mode - not sent'')"
    using h(4,7) m by (simp add: persisted_def)
  have 3: "df_at (persisted d0 (main config e tpl d0 w0)) i (c_timestamp (COLUMNS config)) = Some x"
    using h(4,8) m(2) ts distinct by (simp add: persisted_def)
  show ?thesis
    using send 2 3 5 process_row_result(3)[OF send[of "wld s0"]] by simp
qed

theorem test_mode_row_witness:
  "fst (send_personalized_email (loop_row test_config sample_data 1) test_config short_template
          (TEST_MODE test_config) quiet_env world0)
     = Inr (True, ''Test mode - not sent'', None)
   \<and> df_at (persisted sample_data (main test_config quiet_env short_template sample_data world0))
        1 ''Email Status'' = Some (Str ''Test mode - not sent'')
   \<and> df_at (persisted sample_data (main test_config quiet_env short_template sample_data world0))
        1 ''Sent Timestamp'' = Some (Str [])
   \<and> successful_emails
        (snd (process_row test_config quiet_env short_template (loop_row test_config sample_data 1)
                (start_state sample_data world0))) = 1
   \<and> (\<exists>en. filter (\<lambda>d. fst d = 1)
               (new_deliveries world0
                  (snd (snd (main test_config quiet_env short_template sample_data world0))))
             = [(1, Preview, en)])"
proof -
  have ready: "env_ready test_config quiet_env" by code_simp
  have wf: "well_formed sample_data" by code_simp
  have starts: "run_starts test_config quiet_env sample_data" by code_simp
  have test: "TEST_MODE test_config" by code_simp
  have st: "df_at sample_data 1 (c_status (COLUMNS test_config)) = Some (Str [])" by code_simp
  have pend: "\<not> already_sent (Str [])" by code_simp
  have cap: "int (length (filter (\<lambda>r. \<not> skipped test_config r) (take 1 (iterrows sample_data))))
             < MAX_EMAILS_PER_RUN test_config"
    by code_simp
  have to: "df_at sample_data 1 (c_to (COLUMNS test_config))
            = Some (Str ''jane@example.com,jane2@example.com'')"
    by code_simp
  have valid: "parse_email_list (Str ''jane@example.com,jane2@example.com'') \<noteq> []" by code_simp
  have distinct: "c_status (COLUMNS test_config) \<noteq> c_timestamp (COLUMNS test_config)"
    by code_simp
  have ts: "df_at sample_data 1 (c_timestamp (COLUMNS test_config)) = Some (Str [])" by code_simp
  have z: "successful_emails (start_state sample_data world0) = 0"
    by (simp add: start_state_def)
  show ?thesis
    using test_mode_row[OF ready wf starts test st pend cap to valid distinct ts,
        where tpl = short_template and ?w0.0 = world0 and w = world0
          and ?s0.0 = "start_state sample_data world0"] z
    by (simp add: default_names)
qed

end
